theory Spec2Isabelle
  imports Complex_Main "HOL-Library.Char_ord" "HOL-Library.List_Lexorder" "HOL-Library.AList"
    "HOL-Library.Multiset"
begin

section \<open>OntoMapEngine: the cascade controller of the ontology mapping engine\<close>

text \<open>
  A shallow embedding of \<^verbatim>\<open>src/Engine/ontology_mapping_engine.py\<close>. Python strings are
  \<open>string\<close> (ASCII characters only), exceptions are values of \<open>error\<close>, a pandas
  DataFrame is a \<open>table\<close>: its column names in order and its rows, each row an
  association list from column names to cells. A column that a row does not carry reads
  as the missing value, as pandas fills it with NaN.
\<close>

subsection \<open>Python strings\<close>

text \<open>\<^verbatim>\<open>str.isspace\<close> on the ASCII range: tab, LF, VT, FF, CR, FS, GS, RS, US, space.\<close>

definition is_space :: "char \<Rightarrow> bool" where
  "is_space c \<longleftrightarrow> (let n = (of_char c :: nat) in (9 \<le> n \<and> n \<le> 13) \<or> (28 \<le> n \<and> n \<le> 32))"

definition is_digit :: "char \<Rightarrow> bool" where
  "is_digit c \<longleftrightarrow> (let n = (of_char c :: nat) in 48 \<le> n \<and> n \<le> 57)"

text \<open>\<^verbatim>\<open>s.strip()\<close>\<close>

definition py_strip :: "string \<Rightarrow> string" where
  "py_strip s = rev (dropWhile is_space (rev (dropWhile is_space s)))"

definition lower_char :: "char \<Rightarrow> char" where
  "lower_char c = (let n = (of_char c :: nat) in if 65 \<le> n \<and> n \<le> 90 then char_of (n + 32) else c)"

text \<open>\<^verbatim>\<open>s.lower()\<close>\<close>

definition py_lower :: "string \<Rightarrow> string" where
  "py_lower s = map lower_char s"

text \<open>\<^verbatim>\<open>str(n)\<close> for an integer: decimal digits, a minus sign when negative.\<close>

definition digit_char :: "nat \<Rightarrow> char" where
  "digit_char d = char_of (48 + d)"

function str_nat :: "nat \<Rightarrow> string" where
  "str_nat n = (if n < 10 then [digit_char n] else str_nat (n div 10) @ [digit_char (n mod 10)])"
  by pat_completeness auto
termination
  by (relation "measure (\<lambda>n. n)") auto

definition str_int :: "int \<Rightarrow> string" where
  "str_int i = (if i < 0 then CHR ''-'' # str_nat (nat (- i)) else str_nat (nat i))"

text \<open>The number that a string of decimal digits denotes: it reads \<open>str_nat\<close> back.\<close>

definition digit_val :: "char \<Rightarrow> nat" where
  "digit_val c = of_char c - 48"

definition str_val :: "string \<Rightarrow> nat" where
  "str_val s = foldl (\<lambda>a c. 10 * a + digit_val c) 0 s"

text \<open>
  \<^verbatim>\<open>re.search(r'(C\d+)', s)\<close>: the leftmost \<open>C\<close> that is followed by a digit, with
  all the digits that follow it; \<open>None\<close> when there is none.
\<close>

fun extract_code :: "string \<Rightarrow> string option" where
  "extract_code [] = None"
| "extract_code (c # cs) =
     (if c = CHR ''C'' \<and> takeWhile is_digit cs \<noteq> [] then Some (c # takeWhile is_digit cs)
      else extract_code cs)"

subsection \<open>Errors and tables\<close>

datatype error =
  ValueError | KeyError | AttributeError | InvalidIndexError | LoadError | BackendError

type_synonym 'c row = "(string \<times> 'c) list"

record 'c table =
  cols :: "string list"
  rows :: "'c row list"

text \<open>Keeps the first occurrence of every key, in order (\<^verbatim>\<open>dict.fromkeys\<close>, \<^verbatim>\<open>unique\<close>,
  \<^verbatim>\<open>drop_duplicates\<close>).\<close>

fun uniq_by :: "('a \<Rightarrow> 'k) \<Rightarrow> 'k list \<Rightarrow> 'a list \<Rightarrow> 'a list" where
  "uniq_by f seen [] = []"
| "uniq_by f seen (x # xs) =
     (if f x \<in> set seen then uniq_by f seen xs else x # uniq_by f (f x # seen) xs)"

definition uniq :: "'a list \<Rightarrow> 'a list" where
  "uniq xs = uniq_by (\<lambda>x. x) [] xs"

text \<open>\<^verbatim>\<open>df[c] = values\<close>: the column is appended when new, overwritten in place otherwise.\<close>

definition set_col :: "string \<Rightarrow> ('c row \<Rightarrow> 'c) \<Rightarrow> 'c table \<Rightarrow> 'c table" where
  "set_col c f t =
     \<lparr>cols = (if c \<in> set (cols t) then cols t else cols t @ [c]),
      rows = map (\<lambda>r. AList.update c (f r) r) (rows t)\<rparr>"

text \<open>\<^verbatim>\<open>pd.concat(ts, ignore_index=True)\<close>: the union of the columns, the rows one after
  the other. pandas cannot align a frame that repeats a column label with frames of other
  columns and raises \<^verbatim>\<open>InvalidIndexError\<close>; \<open>run\<close> always concatenates with the
  stage-1 frame, whose labels are unique.\<close>

definition concat_tables :: "'c table list \<Rightarrow> 'c table" where
  "concat_tables ts = \<lparr>cols = uniq (concat (map cols ts)), rows = concat (map rows ts)\<rparr>"

definition pd_concat :: "'c table list \<Rightarrow> error + 'c table" where
  "pd_concat ts =
     (if \<forall>t \<in> set ts. distinct (cols t) then Inr (concat_tables ts) else Inl InvalidIndexError)"

subsection \<open>The corpus normalizer\<close>

text \<open>Cells of the reference table: missing, a string, or an integer.\<close>

datatype rcell = RNull | RStr string | RInt int

definition rget :: "rcell row \<Rightarrow> string \<Rightarrow> rcell" where
  "rget r c = (case map_of r c of None \<Rightarrow> RNull | Some v \<Rightarrow> v)"

text \<open>\<^verbatim>\<open>astype(str)\<close> on one cell; the missing value NaN prints as \<open>nan\<close>.\<close>

fun astype_str :: "rcell \<Rightarrow> string" where
  "astype_str RNull = ''nan''"
| "astype_str (RStr s) = s"
| "astype_str (RInt i) = str_int i"

definition dropna :: "string list \<Rightarrow> rcell table \<Rightarrow> rcell table" where
  "dropna keep t = t\<lparr>rows := filter (\<lambda>r. \<forall>c \<in> set keep. rget r c \<noteq> RNull) (rows t)\<rparr>"

definition drop_duplicates :: "string list \<Rightarrow> rcell table \<Rightarrow> rcell table" where
  "drop_duplicates keep t = t\<lparr>rows := uniq_by (\<lambda>r. map (rget r) keep) [] (rows t)\<rparr>"

definition astype_str_col :: "string \<Rightarrow> rcell table \<Rightarrow> rcell table" where
  "astype_str_col c t = set_col c (\<lambda>r. RStr (astype_str (rget r c))) t"

definition extract_cell :: "rcell \<Rightarrow> rcell" where
  "extract_cell v = (case extract_code (astype_str v) of None \<Rightarrow> RNull | Some s \<Rightarrow> RStr s)"

definition normalize_df :: "rcell table \<Rightarrow> bool \<Rightarrow> error + rcell table" where
  "normalize_df df need_code =
     (if ''official_label'' \<notin> set (cols df) \<and> ''label'' \<notin> set (cols df) then Inl ValueError
      else
        let df1 = (if ''official_label'' \<notin> set (cols df)
                   then set_col ''official_label'' (\<lambda>r. rget r ''label'') df else df)
        in if need_code \<and> ''clean_code'' \<notin> set (cols df1) \<and> ''obo_id'' \<notin> set (cols df1)
           then Inl ValueError
           else
             let df2 = (if need_code \<and> ''clean_code'' \<notin> set (cols df1)
                        then set_col ''clean_code'' (\<lambda>r. extract_cell (rget r ''obo_id'')) df1
                        else df1);
                 keep = ''official_label'' # (if need_code then [''clean_code''] else []);
                 df3 = drop_duplicates keep (dropna keep df2);
                 df4 = astype_str_col ''official_label'' df3
             in Inr (if ''clean_code'' \<in> set (cols df4) then astype_str_col ''clean_code'' df4
                     else df4))"

subsection \<open>Result tables\<close>

text \<open>Cells of a result table: missing (NaN), a string, or a number.\<close>

datatype cell = Null | Str string | Num rat

definition cget :: "cell row \<Rightarrow> string \<Rightarrow> cell" where
  "cget r c = (case map_of r c of None \<Rightarrow> Null | Some v \<Rightarrow> v)"

abbreviation original_value :: string where "original_value \<equiv> ''original_value''"
abbreviation updated_value :: string where "updated_value \<equiv> ''updated_value''"
abbreviation curated_ontology :: string where "curated_ontology \<equiv> ''curated_ontology''"
abbreviation match_level :: string where "match_level \<equiv> ''match_level''"
abbreviation stage :: string where "stage \<equiv> ''stage''"
abbreviation top1_score :: string where "top1_score \<equiv> ''top1_score''"

text \<open>\<^verbatim>\<open>f'top{i}_match'\<close> and \<^verbatim>\<open>f'top{i}_score'\<close>\<close>

definition top_match :: "int \<Rightarrow> string" where
  "top_match i = ''top'' @ str_int i @ ''_match''"

definition top_score :: "int \<Rightarrow> string" where
  "top_score i = ''top'' @ str_int i @ ''_score''"

subsection \<open>The engine and its collaborators\<close>

text \<open>
  A curation map is a Python dict: its items in insertion order; \<open>map_of\<close> looks a key up.
  A matcher backend is opaque: constructed over the expanded queries, the corpus and
  \<open>topk\<close>, its \<^verbatim>\<open>get_match_results\<close> takes the re-keyed curation map and returns a
  table or raises.
\<close>

type_synonym cura = "(string \<times> string) list"

type_synonym backend = "string list \<Rightarrow> string list \<Rightarrow> int \<Rightarrow> cura \<Rightarrow> error + cell table"

text \<open>What reading \<^verbatim>\<open>ABBR_DICT_PATH\<close> gives: the (code, name) lines of the file (every
  line with a code and a name), no file (\<^verbatim>\<open>FileNotFoundError\<close>), or any other failure
  of the load (an unreadable file, a missing \<open>code\<close> or \<open>name\<close> column), which the code
  does not catch.\<close>

datatype abbr_source = Loaded "(string \<times> string) list" | FileNotFound | LoadFailure

text \<open>The world outside the engine: the four matcher classes, the abbreviation file and
  the numeric parser of \<^verbatim>\<open>pd.to_numeric\<close> on strings.\<close>

record env =
  lm_backend :: backend
  st_backend :: backend
  rag_backend :: backend
  bie_backend :: backend
  abbr_file :: abbr_source
  parse_numeric :: "string \<Rightarrow> rat option"

record engine =
  query :: "string list"
  corpus :: "string list"
  cura_map :: cura
  topk :: int
  s2_strategy :: string
  s3_strategy :: "string option"
  s3_threshold :: rat
  corpus_df :: "rcell table option"

text \<open>\<^verbatim>\<open>__init__\<close>: \<open>test_or_prod\<close> and \<open>corpus_df\<close> are the entries of
  \<^verbatim>\<open>other_params\<close> that the constructor reads.\<close>

definition init ::
  "string list \<Rightarrow> string list \<Rightarrow> cura \<Rightarrow> int \<Rightarrow> string \<Rightarrow> string option \<Rightarrow> rat \<Rightarrow>
   string option \<Rightarrow> rcell table option \<Rightarrow> error + engine" where
  "init q c cm k s2 s3 th test_or_prod cdf =
     (if test_or_prod = None then Inl ValueError
      else if s2 \<notin> {''lm'', ''st''} then Inl ValueError
      else
        let e = \<lparr>query = q, corpus = uniq c, cura_map = cm, topk = k, s2_strategy = s2,
                 s3_strategy = s3, s3_threshold = th, corpus_df = cdf\<rparr>
        in case s3 of
             None \<Rightarrow> Inr e
           | Some s \<Rightarrow>
               if s \<notin> {''rag'', ''rag_bie''} then Inl ValueError
               else (case cdf of
                       None \<Rightarrow> Inl ValueError
                     | Some df \<Rightarrow>
                         (case normalize_df df True of
                            Inl err \<Rightarrow> Inl err
                          | Inr df' \<Rightarrow>
                              Inr (e\<lparr>corpus_df := Some df',
                                     corpus := uniq (map (\<lambda>r. astype_str (rget r ''official_label''))
                                                       (rows df'))\<rparr>))))"

subsection \<open>Stage 1: exact matching\<close>

definition exact_matching :: "engine \<Rightarrow> string list" where
  "exact_matching e =
     filter (\<lambda>q. py_lower (py_strip q) \<in> set (map (\<lambda>c. py_lower (py_strip c)) (corpus e)))
            (query e)"

text \<open>The curated label of an exact match: \<^verbatim>\<open>map(cura_map).fillna(original_value)\<close>.\<close>

definition curated_exact :: "cura \<Rightarrow> string \<Rightarrow> string" where
  "curated_exact cm q = (case map_of cm q of None \<Rightarrow> q | Some v \<Rightarrow> v)"

definition exact_row :: "cura \<Rightarrow> int \<Rightarrow> string \<Rightarrow> cell row" where
  "exact_row cm k q =
     [(original_value, Str q), (curated_ontology, Str (curated_exact cm q)),
      (match_level, Num 1), (stage, Num 1)]
     @ concat (map (\<lambda>i. [(top_match i, Str (curated_exact cm q)), (top_score i, Num 1)]) [1..k])"

definition exact_df :: "engine \<Rightarrow> cell table" where
  "exact_df e =
     \<lparr>cols = [original_value, curated_ontology, match_level, stage]
             @ concat (map (\<lambda>i. [top_match i, top_score i]) [1..topk e]),
      rows = map (exact_row (cura_map e) (topk e)) (exact_matching e)\<rparr>"

text \<open>
  numpy holds the strings of a list in a fixed-width array, padded with NUL characters:
  a string read back from the array has lost its trailing NULs, and two strings that
  differ only by trailing NULs are the same element.
\<close>

definition np_str :: "string \<Rightarrow> string" where
  "np_str s = rev (dropWhile (\<lambda>c. c = CHR 0x00) (rev s))"

text \<open>\<^verbatim>\<open>np.setdiff1d(a, b)\<close>: both lists become arrays; the result is the sorted distinct
  elements of \<open>a\<close> that are not elements of \<open>b\<close>.\<close>

definition setdiff1d :: "string list \<Rightarrow> string list \<Rightarrow> string list" where
  "setdiff1d a b = filter (\<lambda>x. x \<notin> set (map np_str b)) (sort (remdups (map np_str a)))"

definition non_exact_matches_ls :: "engine \<Rightarrow> string list" where
  "non_exact_matches_ls e = setdiff1d (query e) (exact_matching e)"

subsection \<open>The abbreviation resolver\<close>

text \<open>\<^verbatim>\<open>dict(zip(code.str.strip(), name.str.strip()))\<close>: the last line of a code wins.\<close>

definition short_to_name :: "(string \<times> string) list \<Rightarrow> (string \<rightharpoonup> string)" where
  "short_to_name ls = map_of (rev (map (\<lambda>(c, n). (py_strip c, py_strip n)) ls))"

text \<open>\<^verbatim>\<open>short_to_name.get(q_strip, q_strip)\<close> with \<^verbatim>\<open>q_strip = q.strip()\<close>\<close>

definition full_name :: "(string \<rightharpoonup> string) \<Rightarrow> string \<Rightarrow> string" where
  "full_name tbl q = (case tbl (py_strip q) of None \<Rightarrow> py_strip q | Some n \<Rightarrow> n)"

definition replaced :: "(string \<rightharpoonup> string) \<Rightarrow> string list \<Rightarrow> (string \<rightharpoonup> string)" where
  "replaced tbl qs = foldl (\<lambda>m q. m(q \<mapsto> full_name tbl q)) Map.empty qs"

definition map_shortname_to_fullname ::
  "abbr_source \<Rightarrow> string list \<Rightarrow> error + (string \<rightharpoonup> string)" where
  "map_shortname_to_fullname src qs =
     (case src of
        Loaded ls \<Rightarrow> Inr (replaced (short_to_name ls) qs)
      | FileNotFound \<Rightarrow> Inr (replaced Map.empty qs)
      | LoadFailure \<Rightarrow> Inl LoadError)"

subsection \<open>Stages 2 and 3\<close>

definition om_model_from_strategy :: "env \<Rightarrow> string \<Rightarrow> error + backend" where
  "om_model_from_strategy w s =
     (if s = ''lm'' then Inr (lm_backend w)
      else if s = ''st'' then Inr (st_backend w)
      else if s = ''rag'' then Inr (rag_backend w)
      else if s = ''rag_bie'' then Inr (bie_backend w)
      else Inl ValueError)"

text \<open>\<^verbatim>\<open>{mapping_dict[k]: v for k, v in cura_map.items() if k in mapping_dict}\<close>\<close>

definition updated_cura_map :: "(string \<rightharpoonup> string) \<Rightarrow> cura \<Rightarrow> cura" where
  "updated_cura_map m cm =
     foldl (\<lambda>acc (k, v). case m k of None \<Rightarrow> acc | Some k' \<Rightarrow> AList.update k' v acc) [] cm"

text \<open>\<^verbatim>\<open>res.rename(columns={"original_value": "updated_value"})\<close>\<close>

definition rename_key :: "cell table \<Rightarrow> cell table" where
  "rename_key t =
     (if original_value \<in> set (cols t)
      then \<lparr>cols = map (\<lambda>c. if c = original_value then updated_value else c) (cols t),
            rows = map (map (\<lambda>(c, v). (if c = original_value then updated_value else c, v)))
                       (rows t)\<rparr>
      else t)"

text \<open>
  \<^verbatim>\<open>pd.merge(replace_df, res, on="updated_value", how="left")\<close>: every row of
  \<open>replace_df\<close>, in order, once for each row of \<open>res\<close> with its key, and once alone when
  \<open>res\<close> has none. The merge raises \<^verbatim>\<open>KeyError\<close> when \<open>res\<close> has no key column, and
  \<^verbatim>\<open>ValueError\<close> when the key label is not unique in \<open>res\<close>, or when the key column of
  \<open>res\<close> has a numeric dtype (it has rows and none of its keys is a string; the missing
  value is the float NaN) while the keys of \<open>replace_df\<close> are strings. Other column labels
  that \<open>res\<close> repeats pass the merge; a row reads the first cell of a label.
\<close>

definition matching :: "cell table \<Rightarrow> cell row \<Rightarrow> cell row list" where
  "matching res l = filter (\<lambda>r. cget r updated_value = cget l updated_value) (rows res)"

definition merge_rows :: "cell table \<Rightarrow> cell row \<Rightarrow> cell row list" where
  "merge_rows res l =
     (case matching res l of
        [] \<Rightarrow> [l]
      | ms \<Rightarrow> map (\<lambda>r. l @ filter (\<lambda>(c, v). c \<in> set (cols res) \<and> c \<noteq> updated_value) r) ms)"

definition numeric_keys :: "cell table \<Rightarrow> bool" where
  "numeric_keys res \<longleftrightarrow>
     rows res \<noteq> [] \<and>
     (\<forall>r \<in> set (rows res). case cget r updated_value of Str s \<Rightarrow> False | _ \<Rightarrow> True)"

definition merge_left :: "cell row list \<Rightarrow> cell table \<Rightarrow> error + cell table" where
  "merge_left left res =
     (if updated_value \<notin> set (cols res) then Inl KeyError
      else if count_list (cols res) updated_value \<noteq> 1 then Inl ValueError
      else if left \<noteq> [] \<and> numeric_keys res then Inl ValueError
      else Inr \<lparr>cols = [original_value, updated_value]
                        @ filter (\<lambda>c. c \<noteq> updated_value) (cols res),
                 rows = concat (map (merge_rows res) left)\<rparr>)"

text \<open>\<^verbatim>\<open>map(cura_map).fillna("Not Found")\<close>\<close>

definition curated_or_not_found :: "cura \<Rightarrow> cell \<Rightarrow> cell" where
  "curated_or_not_found cm v =
     (case v of Str q \<Rightarrow> (case map_of cm q of None \<Rightarrow> Str ''Not Found'' | Some c \<Rightarrow> Str c)
      | _ \<Rightarrow> Str ''Not Found'')"

definition updated_queries :: "(string \<rightharpoonup> string) \<Rightarrow> string list \<Rightarrow> string list" where
  "updated_queries mapping_dict qs = map (\<lambda>q. the (mapping_dict q)) qs"

definition replace_df :: "(string \<rightharpoonup> string) \<Rightarrow> string list \<Rightarrow> cell row list" where
  "replace_df mapping_dict qs =
     map (\<lambda>q. [(original_value, Str q), (updated_value, Str (the (mapping_dict q)))]) qs"

text \<open>The two columns that the engine writes on a joined table.\<close>

definition tag_stage :: "cura \<Rightarrow> int \<Rightarrow> cell table \<Rightarrow> cell table" where
  "tag_stage cm n merged =
     set_col stage (\<lambda>r. Num (of_int n))
       (set_col curated_ontology (\<lambda>r. curated_or_not_found cm (cget r original_value)) merged)"

text \<open>
  One matcher stage over the queries \<open>qs\<close>, as \<^verbatim>\<open>run\<close> writes it out twice (for stage 2
  with \<open>s2_strategy\<close>, for stage 3 with \<open>s3_strategy\<close>): resolve the abbreviations, re-key
  the curation map, run the backend over the expanded queries, join its table back to
  the original queries, attach the curated label, tag the stage.
\<close>

definition get_match_results ::
  "env \<Rightarrow> engine \<Rightarrow> string \<Rightarrow> (string \<rightharpoonup> string) \<Rightarrow> string list \<Rightarrow> error + cell table" where
  "get_match_results w e strategy mapping_dict qs =
     (case om_model_from_strategy w strategy of
        Inl err \<Rightarrow> Inl err
      | Inr model \<Rightarrow>
          model (updated_queries mapping_dict qs) (corpus e) (topk e)
                (updated_cura_map mapping_dict (cura_map e)))"

definition stage_res :: "env \<Rightarrow> engine \<Rightarrow> string \<Rightarrow> int \<Rightarrow> string list \<Rightarrow> error + cell table" where
  "stage_res w e strategy n qs =
     (case map_shortname_to_fullname (abbr_file w) qs of
        Inl err \<Rightarrow> Inl err
      | Inr mapping_dict \<Rightarrow>
          (case get_match_results w e strategy mapping_dict qs of
             Inl err \<Rightarrow> Inl err
           | Inr res \<Rightarrow>
               (case merge_left (replace_df mapping_dict qs) (rename_key res) of
                  Inl err \<Rightarrow> Inl err
                | Inr merged \<Rightarrow> Inr (tag_stage (cura_map e) n merged))))"

text \<open>The query strings that a backend's table is keyed by: its \<open>original_value\<close>
  column, which the engine renames to \<open>updated_value\<close> before the join.\<close>

definition result_keys :: "cell table \<Rightarrow> cell list" where
  "result_keys res = map (\<lambda>r. cget r updated_value) (rows (rename_key res))"

subsection \<open>The cascade\<close>

text \<open>\<^verbatim>\<open>pd.to_numeric(x, errors='coerce')\<close> then \<^verbatim>\<open>fillna(0)\<close>, on one cell.\<close>

definition to_numeric :: "(string \<Rightarrow> rat option) \<Rightarrow> cell \<Rightarrow> rat" where
  "to_numeric p v =
     (case v of Null \<Rightarrow> 0 | Num x \<Rightarrow> x
      | Str s \<Rightarrow> (case p s of None \<Rightarrow> 0 | Some x \<Rightarrow> x))"

definition low_confidence :: "env \<Rightarrow> engine \<Rightarrow> cell row \<Rightarrow> bool" where
  "low_confidence w e r \<longleftrightarrow> to_numeric (parse_numeric w) (cget r top1_score) < s3_threshold e"

definition queries_for_s3 :: "env \<Rightarrow> engine \<Rightarrow> cell table \<Rightarrow> cell list" where
  "queries_for_s3 w e s2 = map (\<lambda>r. cget r original_value) (filter (low_confidence w e) (rows s2))"

text \<open>The strings of a column of original queries (they are strings in every stage table).\<close>

fun str_of :: "cell \<Rightarrow> string" where
  "str_of (Str s) = s"
| "str_of _ = []"

definition s2_res_filtered :: "env \<Rightarrow> engine \<Rightarrow> cell table \<Rightarrow> cell table" where
  "s2_res_filtered w e s2 =
     s2\<lparr>rows := filter (\<lambda>r. cget r original_value \<notin> set (queries_for_s3 w e s2)) (rows s2)\<rparr>"

text \<open>
  \<^verbatim>\<open>run\<close>. With stage 3 configured and a \<open>top1_score\<close> label in the stage-2 frame, the
  code reads \<^verbatim>\<open>s2_res['top1_score'].dtype\<close>: when the frame repeats the label this is a
  frame, not a column, and the read raises \<^verbatim>\<open>AttributeError\<close>.
\<close>

definition run :: "env \<Rightarrow> engine \<Rightarrow> error + cell table" where
  "run w e =
     (if non_exact_matches_ls e = [] then Inr (exact_df e)
      else case stage_res w e (s2_strategy e) 2 (non_exact_matches_ls e) of
             Inl err \<Rightarrow> Inl err
           | Inr s2 \<Rightarrow>
               (case s3_strategy e of
                  None \<Rightarrow> pd_concat [exact_df e, s2]
                | Some s3 \<Rightarrow>
                    if top1_score \<notin> set (cols s2) then pd_concat [exact_df e, s2]
                    else if count_list (cols s2) top1_score \<noteq> 1 then Inl AttributeError
                    else if queries_for_s3 w e s2 = [] then pd_concat [exact_df e, s2]
                    else (case stage_res w e s3 3 (map str_of (queries_for_s3 w e s2)) of
                            Inl err \<Rightarrow> Inl err
                          | Inr s3_res \<Rightarrow>
                              pd_concat [exact_df e, s2_res_filtered w e s2, s3_res])))"

subsection \<open>Scenarios\<close>

text \<open>
  A matcher that answers every submitted query with one row: a match and the score
  \<open>sc\<close>.
\<close>

definition scored :: "rat \<Rightarrow> backend" where
  "scored sc qs c k cm =
     Inr \<lparr>cols = [original_value, ''top1_match'', top1_score],
          rows = map (\<lambda>q. [(original_value, Str q), (''top1_match'', Str ''Neoplasm''),
                           (top1_score, Num sc)]) qs\<rparr>"

text \<open>
  The scenario of the specification: two spellings of a corpus label and one unknown
  query; stage 2 scores the unknown query 0.4, below the threshold 0.9 of a configured
  stage 3, which scores it 0.95.
\<close>

definition scenario_env :: env where
  "scenario_env =
     \<lparr>lm_backend = scored (2/5), st_backend = scored (2/5),
      rag_backend = scored (19/20), bie_backend = scored (19/20),
      abbr_file = FileNotFound, parse_numeric = (\<lambda>s. None)\<rparr>"

definition scenario_engine :: engine where
  "scenario_engine =
     \<lparr>query = [''Lung Cancer'', ''lung cancer'', ''XYZ''],
      corpus = [''Lung Cancer'', ''Breast Cancer''],
      cura_map = [(''lung cancer'', ''Lung Carcinoma'')], topk = 1,
      s2_strategy = ''lm'', s3_strategy = Some ''rag'', s3_threshold = 9/10,
      corpus_df = None\<rparr>"

definition scenario_table :: "cell table" where
  "scenario_table =
     \<lparr>cols = [original_value, curated_ontology, match_level, stage,
              ''top1_match'', top1_score, updated_value],
      rows =
        [[(original_value, Str ''Lung Cancer''), (curated_ontology, Str ''Lung Cancer''),
          (match_level, Num 1), (stage, Num 1), (''top1_match'', Str ''Lung Cancer''),
          (top1_score, Num 1)],
         [(original_value, Str ''lung cancer''), (curated_ontology, Str ''Lung Carcinoma''),
          (match_level, Num 1), (stage, Num 1), (''top1_match'', Str ''Lung Carcinoma''),
          (top1_score, Num 1)],
         [(original_value, Str ''XYZ''), (updated_value, Str ''XYZ''),
          (''top1_match'', Str ''Neoplasm''), (top1_score, Num (19 / 20)),
          (curated_ontology, Str ''Not Found''), (stage, Num 3)]]\<rparr>"

text \<open>
  The same engine over a stage-2 matcher whose table has no \<open>top1_score\<close> column, and
  stage-3 matchers that raise.
\<close>

definition unscored :: backend where
  "unscored qs c k cm =
     Inr \<lparr>cols = [original_value, ''top1_match''],
          rows = map (\<lambda>q. [(original_value, Str q), (''top1_match'', Str ''Neoplasm'')]) qs\<rparr>"

definition failing :: backend where
  "failing qs c k cm = Inl BackendError"

definition degraded_env :: env where
  "degraded_env =
     \<lparr>lm_backend = unscored, st_backend = unscored, rag_backend = failing,
      bie_backend = failing, abbr_file = FileNotFound, parse_numeric = (\<lambda>s. None)\<rparr>"

text \<open>A stage-2 matcher that silently drops every query: a table with no rows.\<close>

definition dropping :: backend where
  "dropping qs c k cm = Inr \<lparr>cols = [original_value, ''top1_match'', top1_score], rows = []\<rparr>"

definition dropping_env :: env where
  "dropping_env =
     \<lparr>lm_backend = dropping, st_backend = dropping, rag_backend = failing,
      bie_backend = failing, abbr_file = FileNotFound, parse_numeric = (\<lambda>s. None)\<rparr>"

definition dropped_table :: "cell table" where
  "dropped_table =
     \<lparr>cols = [original_value, updated_value, ''top1_match'', top1_score, curated_ontology, stage],
      rows = [[(original_value, Str ''XYZ''), (updated_value, Str ''XYZ''),
               (curated_ontology, Str ''Not Found''), (stage, Num 2)]]\<rparr>"

text \<open>A corpus label given twice and an unknown query given twice, with stage 3
  disabled.\<close>

definition dup_engine :: engine where
  "dup_engine =
     scenario_engine\<lparr>query := [''Lung Cancer'', ''Lung Cancer'', ''XYZ'', ''XYZ''],
                      s3_strategy := None\<rparr>"

definition dup_table :: "cell table" where
  "dup_table =
     \<lparr>cols = [original_value, curated_ontology, match_level, stage,
              ''top1_match'', top1_score, updated_value],
      rows = [[(original_value, Str ''Lung Cancer''), (curated_ontology, Str ''Lung Cancer''),
               (match_level, Num 1), (stage, Num 1), (''top1_match'', Str ''Lung Cancer''),
               (top1_score, Num 1)],
              [(original_value, Str ''Lung Cancer''), (curated_ontology, Str ''Lung Cancer''),
               (match_level, Num 1), (stage, Num 1), (''top1_match'', Str ''Lung Cancer''),
               (top1_score, Num 1)],
              [(original_value, Str ''XYZ''), (updated_value, Str ''XYZ''),
               (''top1_match'', Str ''Neoplasm''), (top1_score, Num (2 / 5)),
               (curated_ontology, Str ''Not Found''), (stage, Num 2)]]\<rparr>"

text \<open>A stage-2 matcher whose table has neither a \<open>top1_score\<close> column nor the key
  column \<open>original_value\<close>.\<close>

definition keyless :: backend where
  "keyless qs c k cm =
     Inr \<lparr>cols = [''top1_match''], rows = map (\<lambda>q. [(''top1_match'', Str ''Neoplasm'')]) qs\<rparr>"

definition keyless_env :: env where
  "keyless_env = degraded_env\<lparr>lm_backend := keyless, st_backend := keyless\<rparr>"

text \<open>
  A stage-2 matcher that returns two rows for every submitted query, one scored 0.95 and
  one scored 0.4.
\<close>

definition two_scores :: backend where
  "two_scores qs c k cm =
     Inr \<lparr>cols = [original_value, top1_score],
          rows = concat (map (\<lambda>q. [[(original_value, Str q), (top1_score, Num (19 / 20))],
                                     [(original_value, Str q), (top1_score, Num (2 / 5))]]) qs)\<rparr>"

definition split_env :: env where
  "split_env = scenario_env\<lparr>lm_backend := two_scores\<rparr>"

definition split_s2 :: "cell table" where
  "split_s2 =
     \<lparr>cols = [original_value, updated_value, top1_score, curated_ontology, stage],
      rows = [[(original_value, Str ''XYZ''), (updated_value, Str ''XYZ''),
               (top1_score, Num (19 / 20)), (curated_ontology, Str ''Not Found''),
               (stage, Num 2)],
              [(original_value, Str ''XYZ''), (updated_value, Str ''XYZ''),
               (top1_score, Num (2 / 5)), (curated_ontology, Str ''Not Found''),
               (stage, Num 2)]]\<rparr>"

definition high_row :: "cell row" where
  "high_row = [(original_value, Str ''XYZ''), (updated_value, Str ''XYZ''),
               (top1_score, Num (19 / 20)), (curated_ontology, Str ''Not Found''),
               (stage, Num 2)]"






text \<open>A reference table whose labels are the integer 1 and the string \<open>1\<close>, and what
  normalizing it once and twice gives.\<close>

definition mixed_labels :: "rcell table" where
  "mixed_labels =
     \<lparr>cols = [''official_label''],
      rows = [[(''official_label'', RInt 1)], [(''official_label'', RStr ''1'')]]\<rparr>"

definition normalized_once :: "rcell table" where
  "normalized_once =
     \<lparr>cols = [''official_label''],
      rows = [[(''official_label'', RStr ''1'')], [(''official_label'', RStr ''1'')]]\<rparr>"

definition normalized_twice :: "rcell table" where
  "normalized_twice =
     \<lparr>cols = [''official_label''], rows = [[(''official_label'', RStr ''1'')]]\<rparr>"

text \<open>A reference table with \<open>label\<close> and \<open>obo_id\<close> columns: one identifier with a
  code, one without.\<close>

definition obo_df :: "rcell table" where
  "obo_df =
     \<lparr>cols = [''label'', ''obo_id''],
      rows = [[(''label'', RStr ''Lung Carcinoma''), (''obo_id'', RStr ''NCIT:C4878'')],
              [(''label'', RStr ''Phenotype''), (''obo_id'', RStr ''HP:0000118'')]]\<rparr>"

definition obo_normalized :: "rcell table" where
  "obo_normalized =
     \<lparr>cols = [''label'', ''obo_id'', ''official_label'', ''clean_code''],
      rows = [[(''label'', RStr ''Lung Carcinoma''), (''obo_id'', RStr ''NCIT:C4878''),
               (''official_label'', RStr ''Lung Carcinoma''),
               (''clean_code'', RStr ''C4878'')]]\<rparr>"

section \<open>Properties\<close>

subsection \<open>Column names and exact-match rows\<close>

lemma last_top_score: "last (top_score i) = CHR ''e''"
  by (simp add: top_score_def)

lemma last_top_match: "last (top_match i) = CHR ''h''"
  by (simp add: top_match_def)

lemma top_score_neq_match: "top_score i \<noteq> top_match j" "top_match j \<noteq> top_score i"
proof -
  have "last (top_score i) \<noteq> last (top_match j)"
    by (simp add: last_top_score last_top_match)
  then show "top_score i \<noteq> top_match j" "top_match j \<noteq> top_score i" by metis+
qed

lemma hd_top_score: "hd (top_score i) = CHR ''t''"
  by (simp add: top_score_def)

lemma hd_top_match: "hd (top_match i) = CHR ''t''"
  by (simp add: top_match_def)

lemma top_score_neq_fixed:
  "top_score i \<noteq> original_value" "top_score i \<noteq> curated_ontology"
  "top_score i \<noteq> match_level" "top_score i \<noteq> stage"
  using hd_top_score [of i] by force+

lemma top_match_neq_fixed:
  "top_match i \<noteq> original_value" "top_match i \<noteq> curated_ontology"
  "top_match i \<noteq> match_level" "top_match i \<noteq> stage"
  using hd_top_match [of i] by force+

lemmas top_neq_fixed =
  top_score_neq_fixed top_match_neq_fixed
  top_score_neq_fixed [symmetric] top_match_neq_fixed [symmetric]

lemma map_of_top_score:
  "i \<in> set js \<Longrightarrow>
   map_of (concat (map (\<lambda>i. [(top_match i, v), (top_score i, Num 1)]) js)) (top_score i)
     = Some (Num 1)"
  by (induction js) (auto simp: top_score_neq_match)

lemma map_of_top_match:
  "i \<in> set js \<Longrightarrow>
   map_of (concat (map (\<lambda>i. [(top_match i, v), (top_score i, Num 1)]) js)) (top_match i)
     = Some v"
  by (induction js) (auto simp: top_score_neq_match)

lemma exact_row_fixed:
  "cget (exact_row cm k q) original_value = Str q"
  "cget (exact_row cm k q) curated_ontology = Str (curated_exact cm q)"
  "cget (exact_row cm k q) match_level = Num 1"
  "cget (exact_row cm k q) stage = Num 1"
  by (simp_all add: exact_row_def cget_def)

lemma exact_row_top:
  assumes "1 \<le> i" "i \<le> k"
  shows "cget (exact_row cm k q) (top_score i) = Num 1"
    and "cget (exact_row cm k q) (top_match i) = Str (curated_exact cm q)"
  using assms
  by (simp_all add: exact_row_def cget_def top_neq_fixed map_of_top_score map_of_top_match)

subsection \<open>Set difference, the resolver and the join\<close>

lemma np_str_idem: "np_str (np_str s) = np_str s"
  by (simp add: np_str_def)

lemma set_setdiff1d: "set (setdiff1d a b) = np_str ` set a - np_str ` set b"
  by (auto simp: setdiff1d_def)

lemma setdiff1d_disjoint: "x \<in> set (setdiff1d a b) \<Longrightarrow> x \<notin> set b"
proof
  assume x: "x \<in> set (setdiff1d a b)" and "x \<in> set b"
  from x obtain y where "x = np_str y" by (auto simp: set_setdiff1d)
  then have "np_str x = x" by (simp add: np_str_idem)
  with \<open>x \<in> set b\<close> have "x \<in> np_str ` set b" by (metis imageI)
  with x show False by (simp add: set_setdiff1d)
qed

lemma set_setdiff1d_plain:
  assumes "\<forall>x \<in> set a. np_str x = x" "set b \<subseteq> set a"
  shows "set (setdiff1d a b) = set a - set b"
proof -
  from assms have "\<forall>x \<in> set b. np_str x = x" by blast
  then have "np_str ` set b = set b" by (simp add: image_def)
  moreover from assms(1) have "np_str ` set a = set a" by (simp add: image_def)
  ultimately show ?thesis by (simp add: set_setdiff1d)
qed



lemma replaced_apply:
  "replaced tbl qs q = (if q \<in> set qs then Some (full_name tbl q) else None)"
  unfolding replaced_def by (induction qs rule: rev_induct) auto

lemma dom_replaced: "dom (replaced tbl qs) = set qs"
  by (auto simp: replaced_apply dom_def)

lemma resolver_cases:
  assumes "map_shortname_to_fullname src qs = Inr mp"
  obtains tbl where "mp = replaced tbl qs"
  using assms by (auto simp: map_shortname_to_fullname_def split: abbr_source.splits)

lemma original_not_in_rename_key: "original_value \<notin> set (cols (rename_key t))"
  by (auto simp: rename_key_def)

lemma merge_rows_nonempty: "merge_rows res l \<noteq> []"
  by (simp add: merge_rows_def split: list.splits)

lemma map_of_filter_key:
  "map_of (filter (\<lambda>(k, v). Q k) r) c = (if Q c then map_of r c else None)"
  by (induction r) auto

lemma cget_merged:
  "cget (l @ filter (\<lambda>(c, v). c \<in> set cs \<and> c \<noteq> updated_value) r) c =
     (case map_of l c of
        Some v \<Rightarrow> v
      | None \<Rightarrow> if c \<in> set cs \<and> c \<noteq> updated_value then cget r c else Null)"
  using map_of_filter_key [of "\<lambda>c. c \<in> set cs \<and> c \<noteq> updated_value" r c]
  by (simp add: cget_def map_add_def split: option.splits)

lemma merge_rows_original:
  assumes "original_value \<notin> set (cols res)" "r \<in> set (merge_rows res l)"
  shows "cget r original_value = cget l original_value"
proof -
  have "cget (l @ filter (\<lambda>(c, v). c \<in> set (cols res) \<and> c \<noteq> updated_value) r') original_value
          = cget l original_value" for r'
    using assms(1) by (simp add: cget_merged) (simp add: cget_def split: option.splits)
  with assms(2) show ?thesis
    by (auto simp: merge_rows_def split: list.splits)
qed

lemma merge_rows_unmatched:
  assumes "matching res l = []"
  shows "merge_rows res l = [l]"
  using assms by (simp add: merge_rows_def)


lemma cget_update: "cget (AList.update k v r) c = (if c = k then v else cget r c)"
  by (simp add: cget_def update_conv')

lemma rows_tag_stage:
  "rows (tag_stage cm n t) =
     map (\<lambda>r. AList.update stage (Num (of_int n))
           (AList.update curated_ontology (curated_or_not_found cm (cget r original_value)) r))
         (rows t)"
  by (simp add: tag_stage_def set_col_def)

lemma cols_tag_stage:
  "set (cols (tag_stage cm n t)) = set (cols t) \<union> {curated_ontology, stage}"
  by (auto simp: tag_stage_def set_col_def)


subsection \<open>One matcher stage\<close>

lemma stage_res_InrE:
  assumes "stage_res w e s n qs = Inr t"
  obtains tbl res where
    "map_shortname_to_fullname (abbr_file w) qs = Inr (replaced tbl qs)"
    "get_match_results w e s (replaced tbl qs) qs = Inr res"
    "updated_value \<in> set (cols (rename_key res))"
    "count_list (cols (rename_key res)) updated_value = 1"
    "t = tag_stage (cura_map e) n
           \<lparr>cols = [original_value, updated_value]
                   @ filter (\<lambda>c. c \<noteq> updated_value) (cols (rename_key res)),
            rows = concat (map (merge_rows (rename_key res)) (replace_df (replaced tbl qs) qs))\<rparr>"
proof -
  from assms obtain mp where mp: "map_shortname_to_fullname (abbr_file w) qs = Inr mp"
    by (auto simp: stage_res_def split: sum.splits)
  then obtain tbl where tbl: "mp = replaced tbl qs" by (rule resolver_cases)
  from assms mp obtain res where res: "get_match_results w e s mp qs = Inr res"
    by (auto simp: stage_res_def split: sum.splits)
  from assms mp res obtain merged where
    merged: "merge_left (replace_df mp qs) (rename_key res) = Inr merged"
      and t: "t = tag_stage (cura_map e) n merged"
    by (auto simp: stage_res_def split: sum.splits)
  from merged have "updated_value \<in> set (cols (rename_key res))"
    "count_list (cols (rename_key res)) updated_value = 1"
    "merged = \<lparr>cols = [original_value, updated_value]
                   @ filter (\<lambda>c. c \<noteq> updated_value) (cols (rename_key res)),
               rows = concat (map (merge_rows (rename_key res)) (replace_df mp qs))\<rparr>"
    by (auto simp: merge_left_def split: if_splits)
  with mp res t tbl that show thesis by blast
qed

lemma replace_df_original:
  "l \<in> set (replace_df mp qs) \<Longrightarrow> \<exists>q \<in> set qs. cget l original_value = Str q"
  by (auto simp: replace_df_def cget_def)

lemma stage_rows_original:
  assumes "stage_res w e s n qs = Inr t" "r \<in> set (rows t)"
  shows "\<exists>q \<in> set qs. cget r original_value = Str q"
proof -
  from assms(1) obtain tbl res where
    t: "t = tag_stage (cura_map e) n
           \<lparr>cols = [original_value, updated_value]
                   @ filter (\<lambda>c. c \<noteq> updated_value) (cols (rename_key res)),
            rows = concat (map (merge_rows (rename_key res)) (replace_df (replaced tbl qs) qs))\<rparr>"
    by (rule stage_res_InrE)
  from assms(2) obtain l r0 where l: "l \<in> set (replace_df (replaced tbl qs) qs)"
    and r0: "r0 \<in> set (merge_rows (rename_key res) l)"
    and r: "cget r original_value = cget r0 original_value"
    unfolding t rows_tag_stage by (auto simp: cget_update)
  have "cget r0 original_value = cget l original_value"
    using r0 by (rule merge_rows_original [OF original_not_in_rename_key])
  with r show ?thesis using replace_df_original [OF l] by simp
qed

lemma stage_rows_stage:
  assumes "stage_res w e s n qs = Inr t" "r \<in> set (rows t)"
  shows "cget r stage = Num (of_int n)"
proof -
  from assms(1) obtain m where "t = tag_stage (cura_map e) n m"
    by (rule stage_res_InrE)
  with assms(2) show ?thesis by (auto simp: rows_tag_stage cget_update)
qed

lemma stage_rows_cover:
  assumes "stage_res w e s n qs = Inr t" "q \<in> set qs"
  shows "\<exists>r \<in> set (rows t). cget r original_value = Str q"
proof -
  from assms(1) obtain tbl res where
    t: "t = tag_stage (cura_map e) n
           \<lparr>cols = [original_value, updated_value]
                   @ filter (\<lambda>c. c \<noteq> updated_value) (cols (rename_key res)),
            rows = concat (map (merge_rows (rename_key res)) (replace_df (replaced tbl qs) qs))\<rparr>"
    by (rule stage_res_InrE)
  let ?l = "[(original_value, Str q), (updated_value, Str (the (replaced tbl qs q)))]"
  let ?tag = "\<lambda>r. AList.update stage (Num (of_int n))
           (AList.update curated_ontology (curated_or_not_found (cura_map e) (cget r original_value)) r)"
  have l: "?l \<in> set (replace_df (replaced tbl qs) qs)"
    using assms(2) by (auto simp: replace_df_def)
  obtain r0 where r0: "r0 \<in> set (merge_rows (rename_key res) ?l)"
    using merge_rows_nonempty [of "rename_key res" ?l] by (cases "merge_rows (rename_key res) ?l") auto
  have "cget r0 original_value = Str q"
    using merge_rows_original [OF original_not_in_rename_key r0] by (simp add: cget_def)
  moreover have "?tag r0 \<in> set (rows t)"
    unfolding t rows_tag_stage using l r0 by auto
  ultimately show ?thesis
    by (intro bexI [where x = "?tag r0"]) (simp_all add: cget_update)
qed

subsection \<open>The shape of the final table\<close>

lemma rows_concat_tables: "rows (concat_tables ts) = concat (map rows ts)"
  by (simp add: concat_tables_def)

lemma rows_exact_df: "rows (exact_df e) = map (exact_row (cura_map e) (topk e)) (exact_matching e)"
  by (simp add: exact_df_def)

lemma set_exact_matching: "set (exact_matching e) \<subseteq> set (query e)"
  by (auto simp: exact_matching_def)


lemma non_exact_not_exact:
  "q \<in> set (non_exact_matches_ls e) \<Longrightarrow> q \<notin> set (exact_matching e)"
  unfolding non_exact_matches_ls_def by (rule setdiff1d_disjoint)

lemma set_non_exact_plain:
  assumes "\<forall>q \<in> set (query e). np_str q = q"
  shows "set (non_exact_matches_ls e) = set (query e) - set (exact_matching e)"
  unfolding non_exact_matches_ls_def
  using assms set_exact_matching [of e] by (rule set_setdiff1d_plain)

lemma rows_s2_res_filtered:
  "rows (s2_res_filtered w e s2) =
     filter (\<lambda>r. cget r original_value \<notin> set (queries_for_s3 w e s2)) (rows s2)"
  by (simp add: s2_res_filtered_def)

lemma queries_for_s3_iff:
  "v \<in> set (queries_for_s3 w e s2) \<longleftrightarrow>
     (\<exists>r \<in> set (rows s2). low_confidence w e r \<and> cget r original_value = v)"
  by (auto simp: queries_for_s3_def)

lemma queries_for_s3_str:
  assumes "stage_res w e s n qs = Inr s2" "v \<in> set (queries_for_s3 w e s2)"
  shows "\<exists>q \<in> set qs. v = Str q"
  using assms stage_rows_original [OF assms(1)] by (auto simp: queries_for_s3_iff)

lemma str_of_queries_for_s3:
  assumes "stage_res w e s n qs = Inr s2"
  shows "q \<in> set (map str_of (queries_for_s3 w e s2)) \<longleftrightarrow> Str q \<in> set (queries_for_s3 w e s2)"
proof
  assume "q \<in> set (map str_of (queries_for_s3 w e s2))"
  then obtain v where v: "v \<in> set (queries_for_s3 w e s2)" "q = str_of v" by auto
  with queries_for_s3_str [OF assms v(1)] show "Str q \<in> set (queries_for_s3 w e s2)" by auto
next
  assume "Str q \<in> set (queries_for_s3 w e s2)"
  then have "str_of (Str q) \<in> str_of ` set (queries_for_s3 w e s2)" by (rule imageI)
  then show "q \<in> set (map str_of (queries_for_s3 w e s2))" by simp
qed

lemma run_InrE:
  assumes "run w e = Inr t"
  obtains (stage1) "non_exact_matches_ls e = []" "t = exact_df e"
  | (stage2) s2 where "non_exact_matches_ls e \<noteq> []"
      "stage_res w e (s2_strategy e) 2 (non_exact_matches_ls e) = Inr s2"
      "s3_strategy e = None \<or> top1_score \<notin> set (cols s2) \<or> queries_for_s3 w e s2 = []"
      "t = concat_tables [exact_df e, s2]" "distinct (cols s2)"
  | (stage3) s2 s3 s3_res where "non_exact_matches_ls e \<noteq> []"
      "stage_res w e (s2_strategy e) 2 (non_exact_matches_ls e) = Inr s2"
      "s3_strategy e = Some s3" "top1_score \<in> set (cols s2)" "queries_for_s3 w e s2 \<noteq> []"
      "stage_res w e s3 3 (map str_of (queries_for_s3 w e s2)) = Inr s3_res"
      "t = concat_tables [exact_df e, s2_res_filtered w e s2, s3_res]"
      "distinct (cols s2)" "distinct (cols s3_res)" "count_list (cols s2) top1_score = 1"
  using assms unfolding run_def pd_concat_def
  by (auto simp: s2_res_filtered_def split: if_splits sum.splits option.splits)

lemma run_rows:
  assumes "run w e = Inr t"
  obtains Q3 where "Q3 \<subseteq> set (non_exact_matches_ls e)"
    "\<And>r. r \<in> set (rows t) \<Longrightarrow>
       (\<exists>q \<in> set (exact_matching e). r = exact_row (cura_map e) (topk e) q)
       \<or> (\<exists>q \<in> set (non_exact_matches_ls e) - Q3. cget r original_value = Str q \<and> cget r stage = Num 2)
       \<or> (\<exists>q \<in> Q3. cget r original_value = Str q \<and> cget r stage = Num 3)"
    "\<And>q. q \<in> set (exact_matching e) \<Longrightarrow> exact_row (cura_map e) (topk e) q \<in> set (rows t)"
    "\<And>q. q \<in> set (non_exact_matches_ls e) \<Longrightarrow> \<exists>r \<in> set (rows t). cget r original_value = Str q"
  using assms
proof (cases rule: run_InrE)
  case stage1
  show thesis
    by (rule that [of "{}"]) (auto simp: stage1 rows_exact_df)
next
  case (stage2 s2)
  note s2 = stage2(2)
  show thesis
  proof (rule that [of "{}"])
    fix r assume "r \<in> set (rows t)"
    then consider "r \<in> set (rows (exact_df e))" | "r \<in> set (rows s2)"
      by (auto simp: stage2(4) rows_concat_tables)
    then show "(\<exists>q \<in> set (exact_matching e). r = exact_row (cura_map e) (topk e) q)
       \<or> (\<exists>q \<in> set (non_exact_matches_ls e) - {}. cget r original_value = Str q \<and> cget r stage = Num 2)
       \<or> (\<exists>q \<in> {}. cget r original_value = Str q \<and> cget r stage = Num 3)"
    proof cases
      case 1 then show ?thesis by (auto simp: rows_exact_df)
    next
      case 2
      with stage_rows_original [OF s2 2] stage_rows_stage [OF s2 2] show ?thesis by auto
    qed
  next
    fix q assume "q \<in> set (non_exact_matches_ls e)"
    from stage_rows_cover [OF s2 this]
    show "\<exists>r \<in> set (rows t). cget r original_value = Str q"
      by (auto simp: stage2(4) rows_concat_tables)
  qed (auto simp: stage2(4) rows_concat_tables rows_exact_df)
next
  case (stage3 s2 s3 s3_res)
  note s2 = stage3(2) and s3 = stage3(6)
  let ?Q3 = "str_of ` set (queries_for_s3 w e s2)"
  have mem: "\<And>q. q \<in> ?Q3 \<longleftrightarrow> Str q \<in> set (queries_for_s3 w e s2)"
    using str_of_queries_for_s3 [OF s2] by simp
  show thesis
  proof (rule that [of ?Q3])
    show "?Q3 \<subseteq> set (non_exact_matches_ls e)"
    proof
      fix q assume "q \<in> ?Q3"
      then have "Str q \<in> set (queries_for_s3 w e s2)" by (simp only: mem)
      from queries_for_s3_str [OF s2 this] show "q \<in> set (non_exact_matches_ls e)" by auto
    qed
  next
    fix r assume "r \<in> set (rows t)"
    then consider "r \<in> set (rows (exact_df e))"
      | "r \<in> set (rows s2)" "cget r original_value \<notin> set (queries_for_s3 w e s2)"
      | "r \<in> set (rows s3_res)"
      by (auto simp: stage3(7) rows_concat_tables rows_s2_res_filtered)
    then show "(\<exists>q \<in> set (exact_matching e). r = exact_row (cura_map e) (topk e) q)
       \<or> (\<exists>q \<in> set (non_exact_matches_ls e) - ?Q3. cget r original_value = Str q \<and> cget r stage = Num 2)
       \<or> (\<exists>q \<in> ?Q3. cget r original_value = Str q \<and> cget r stage = Num 3)"
    proof cases
      case 1 then show ?thesis by (auto simp: rows_exact_df)
    next
      case 2
      from stage_rows_original [OF s2 2(1)] obtain q where
        q: "q \<in> set (non_exact_matches_ls e)" "cget r original_value = Str q" by auto
      with 2(2) have "q \<notin> ?Q3" by (simp add: mem)
      with q stage_rows_stage [OF s2 2(1)] show ?thesis by auto
    next
      case 3
      with stage_rows_original [OF s3 3] stage_rows_stage [OF s3 3] show ?thesis by auto
    qed
  next
    fix q assume "q \<in> set (exact_matching e)"
    then show "exact_row (cura_map e) (topk e) q \<in> set (rows t)"
      by (auto simp: stage3(7) rows_concat_tables rows_exact_df)
  next
    fix q assume q: "q \<in> set (non_exact_matches_ls e)"
    show "\<exists>r \<in> set (rows t). cget r original_value = Str q"
    proof (cases "q \<in> ?Q3")
      case True
      then have "q \<in> set (map str_of (queries_for_s3 w e s2))" by simp
      from stage_rows_cover [OF s3 this] show ?thesis
        by (auto simp: stage3(7) rows_concat_tables)
    next
      case False
      from stage_rows_cover [OF s2 q] obtain r where
        r: "r \<in> set (rows s2)" "cget r original_value = Str q" by auto
      with False have "r \<in> set (rows (s2_res_filtered w e s2))"
        by (simp add: rows_s2_res_filtered mem)
      with r(2) show ?thesis by (auto simp: stage3(7) rows_concat_tables)
    qed
  qed
qed

lemma scenario_run: "run scenario_env scenario_engine = Inr scenario_table"
  by code_simp

subsection \<open>Exact matches and stage exclusivity\<close>

lemma exact_matching_iff:
  "q \<in> set (exact_matching e) \<longleftrightarrow>
     q \<in> set (query e) \<and>
     py_lower (py_strip q) \<in> set (map (\<lambda>c. py_lower (py_strip c)) (corpus e))"
  by (auto simp: exact_matching_def)

text \<open>
  C3 (exact-match correctness). In the table that \<open>run\<close> returns, a query whose trimmed,
  lower-cased form is that of a corpus entry has a row, and every row of that query has
  \<open>stage\<close> 1, \<open>match_level\<close> 1, every \<open>top{i}_score\<close> for \<open>i\<close> in \<open>1..topk\<close>
  equal to 1 and every \<open>top{i}_match\<close> equal to the curation map's value for the query
  when it has one, and to the query text otherwise.
\<close>

theorem exact_match_rows:
  assumes "run w e = Inr t" "q \<in> set (query e)"
    "py_lower (py_strip q) \<in> set (map (\<lambda>c. py_lower (py_strip c)) (corpus e))"
  shows "(\<exists>r \<in> set (rows t). cget r original_value = Str q)
       \<and> (\<forall>r \<in> set (rows t). cget r original_value = Str q \<longrightarrow>
            cget r stage = Num 1 \<and> cget r match_level = Num 1 \<and>
            (\<forall>i. 1 \<le> i \<and> i \<le> topk e \<longrightarrow>
               cget r (top_score i) = Num 1 \<and>
               cget r (top_match i)
                 = Str (case map_of (cura_map e) q of None \<Rightarrow> q | Some v \<Rightarrow> v)))"
proof -
  from assms(2,3) have ex: "q \<in> set (exact_matching e)"
    by (simp add: exact_matching_iff)
  from assms(1) obtain Q3 where Q3: "Q3 \<subseteq> set (non_exact_matches_ls e)"
    and cls: "\<And>r. r \<in> set (rows t) \<Longrightarrow>
       (\<exists>q \<in> set (exact_matching e). r = exact_row (cura_map e) (topk e) q)
       \<or> (\<exists>q \<in> set (non_exact_matches_ls e) - Q3. cget r original_value = Str q \<and> cget r stage = Num 2)
       \<or> (\<exists>q \<in> Q3. cget r original_value = Str q \<and> cget r stage = Num 3)"
    and cov: "\<And>q. q \<in> set (exact_matching e) \<Longrightarrow> exact_row (cura_map e) (topk e) q \<in> set (rows t)"
    by (rule run_rows) blast
  have "exact_row (cura_map e) (topk e) q \<in> set (rows t)" using ex by (rule cov)
  then have first: "\<exists>r \<in> set (rows t). cget r original_value = Str q"
    by (rule bexI [rotated]) (simp add: exact_row_fixed)
  have second: "cget r stage = Num 1 \<and> cget r match_level = Num 1 \<and>
            (\<forall>i. 1 \<le> i \<and> i \<le> topk e \<longrightarrow>
               cget r (top_score i) = Num 1 \<and>
               cget r (top_match i)
                 = Str (case map_of (cura_map e) q of None \<Rightarrow> q | Some v \<Rightarrow> v))"
    if r: "r \<in> set (rows t)" and rq: "cget r original_value = Str q" for r
  proof -
    from ex have "q \<notin> set (non_exact_matches_ls e)" using non_exact_not_exact by blast
    with cls [OF r] rq Q3 have "\<exists>q' \<in> set (exact_matching e). r = exact_row (cura_map e) (topk e) q'"
      by auto
    then obtain q' where "r = exact_row (cura_map e) (topk e) q'" by blast
    moreover from this rq have "q' = q" by (simp add: exact_row_fixed)
    ultimately have "r = exact_row (cura_map e) (topk e) q" by simp
    then show ?thesis
      by (simp add: exact_row_fixed exact_row_top curated_exact_def)
  qed
  from first second show ?thesis by blast
qed

theorem exact_match_rows_witness:
  "run scenario_env scenario_engine = Inr scenario_table
   \<and> ''lung cancer'' \<in> set (query scenario_engine)
   \<and> py_lower (py_strip ''lung cancer'')
        \<in> set (map (\<lambda>c. py_lower (py_strip c)) (corpus scenario_engine))
   \<and> (\<exists>r \<in> set (rows scenario_table). cget r original_value = Str ''lung cancer'')
   \<and> cget (rows scenario_table ! 1) stage = Num 1
   \<and> cget (rows scenario_table ! 1) (top_match 1) = Str ''Lung Carcinoma''"
proof -
  have h1: "run scenario_env scenario_engine = Inr scenario_table" by (rule scenario_run)
  have h2: "''lung cancer'' \<in> set (query scenario_engine)" by code_simp
  have h3: "py_lower (py_strip ''lung cancer'')
        \<in> set (map (\<lambda>c. py_lower (py_strip c)) (corpus scenario_engine))" by code_simp
  note th = exact_match_rows [OF h1 h2 h3]
  have r: "rows scenario_table ! 1 \<in> set (rows scenario_table)"
    by (simp add: scenario_table_def)
  have q: "cget (rows scenario_table ! 1) original_value = Str ''lung cancer''"
    by (simp add: scenario_table_def cget_def)
  have k: "topk scenario_engine = 1" "map_of (cura_map scenario_engine) ''lung cancer'' = Some ''Lung Carcinoma''"
    by (simp_all add: scenario_engine_def)
  from th r q have "cget (rows scenario_table ! 1) stage = Num 1"
    "cget (rows scenario_table ! 1) (top_match 1) = Str ''Lung Carcinoma''"
    by (auto simp: k)
  with th h1 h2 h3 show ?thesis by blast
qed

text \<open>
  C4 (stage exclusivity). In the table that \<open>run\<close> returns, two rows of the same query
  carry the same \<open>stage\<close> and every row's \<open>stage\<close> is 1, 2 or 3, so the rows of a query
  belong to one stage; and when no input query ends in a NUL character (numpy drops
  trailing NULs from the queries of stage 2), every input query has a row.
\<close>

theorem stage_exclusivity:
  assumes "run w e = Inr t"
  shows "(\<forall>r1 \<in> set (rows t). \<forall>r2 \<in> set (rows t).
            cget r1 original_value = cget r2 original_value \<longrightarrow> cget r1 stage = cget r2 stage)
       \<and> (\<forall>r \<in> set (rows t). cget r stage \<in> {Num 1, Num 2, Num 3})
       \<and> ((\<forall>q \<in> set (query e). np_str q = q) \<longrightarrow>
            (\<forall>q \<in> set (query e). \<exists>r \<in> set (rows t). cget r original_value = Str q))"
proof -
  from assms obtain Q3 where Q3: "Q3 \<subseteq> set (non_exact_matches_ls e)"
    and cls: "\<And>r. r \<in> set (rows t) \<Longrightarrow>
       (\<exists>q \<in> set (exact_matching e). r = exact_row (cura_map e) (topk e) q)
       \<or> (\<exists>q \<in> set (non_exact_matches_ls e) - Q3. cget r original_value = Str q \<and> cget r stage = Num 2)
       \<or> (\<exists>q \<in> Q3. cget r original_value = Str q \<and> cget r stage = Num 3)"
    and cov1: "\<And>q. q \<in> set (exact_matching e) \<Longrightarrow> exact_row (cura_map e) (topk e) q \<in> set (rows t)"
    and cov2: "\<And>q. q \<in> set (non_exact_matches_ls e) \<Longrightarrow> \<exists>r \<in> set (rows t). cget r original_value = Str q"
    by (rule run_rows) blast
  define st where "st q = (if q \<in> set (exact_matching e) then Num 1 else if q \<in> Q3 then Num 3 else Num 2)" for q
  have tag: "\<exists>q. cget r original_value = Str q \<and> cget r stage = st q" if "r \<in> set (rows t)" for r
  proof -
    from cls [OF that] consider
      (one) q where "q \<in> set (exact_matching e)" "r = exact_row (cura_map e) (topk e) q"
      | (two) q where "q \<in> set (non_exact_matches_ls e)" "q \<notin> Q3"
          "cget r original_value = Str q" "cget r stage = Num 2"
      | (three) q where "q \<in> Q3" "cget r original_value = Str q" "cget r stage = Num 3"
      by blast
    then show ?thesis
    proof cases
      case one
      then have "cget r original_value = Str q \<and> cget r stage = st q"
        by (simp add: st_def exact_row_fixed)
      then show ?thesis ..
    next
      case two
      from two(1) have "q \<notin> set (exact_matching e)" by (rule non_exact_not_exact)
      with two have "cget r original_value = Str q \<and> cget r stage = st q"
        by (simp add: st_def)
      then show ?thesis ..
    next
      case three
      from three(1) Q3 have "q \<in> set (non_exact_matches_ls e)" by blast
      then have "q \<notin> set (exact_matching e)" by (rule non_exact_not_exact)
      with three have "cget r original_value = Str q \<and> cget r stage = st q"
        by (simp add: st_def)
      then show ?thesis ..
    qed
  qed
  have a: "cget r1 stage = cget r2 stage"
    if "r1 \<in> set (rows t)" "r2 \<in> set (rows t)" "cget r1 original_value = cget r2 original_value"
    for r1 r2
    using tag [OF that(1)] tag [OF that(2)] that(3) by auto
  have b: "cget r stage \<in> {Num 1, Num 2, Num 3}" if "r \<in> set (rows t)" for r
    using tag [OF that] by (auto simp: st_def split: if_splits)
  have c: "\<exists>r \<in> set (rows t). cget r original_value = Str q"
    if plain: "\<forall>q \<in> set (query e). np_str q = q" and "q \<in> set (query e)" for q
  proof (cases "q \<in> set (exact_matching e)")
    case True
    from cov1 [OF True] show ?thesis
      by (rule bexI [rotated]) (simp add: exact_row_fixed)
  next
    case False
    with that have "q \<in> set (non_exact_matches_ls e)" by (simp add: set_non_exact_plain)
    then show ?thesis by (rule cov2)
  qed
  show ?thesis
  proof (intro conjI ballI impI)
    fix r1 r2 assume "r1 \<in> set (rows t)" "r2 \<in> set (rows t)"
      "cget r1 original_value = cget r2 original_value"
    then show "cget r1 stage = cget r2 stage" by (rule a)
  next
    fix r assume "r \<in> set (rows t)"
    then show "cget r stage \<in> {Num 1, Num 2, Num 3}" by (rule b)
  next
    fix q assume "\<forall>q \<in> set (query e). np_str q = q" "q \<in> set (query e)"
    then show "\<exists>r \<in> set (rows t). cget r original_value = Str q" by (rule c)
  qed
qed

theorem stage_exclusivity_witness:
  "run scenario_env scenario_engine = Inr scenario_table
   \<and> map np_str (query scenario_engine) = query scenario_engine
   \<and> (\<exists>r \<in> set (rows scenario_table). cget r original_value = Str ''XYZ'')
   \<and> cget (rows scenario_table ! 2) stage \<in> {Num 1, Num 2, Num 3}"
proof -
  have h1: "run scenario_env scenario_engine = Inr scenario_table" by (rule scenario_run)
  have np: "map np_str (query scenario_engine) = query scenario_engine" by code_simp
  have plain: "\<forall>q \<in> set (query scenario_engine). np_str q = q"
    by (simp add: scenario_engine_def np_str_def)
  have q: "''XYZ'' \<in> set (query scenario_engine)" by (simp add: scenario_engine_def)
  have r: "rows scenario_table ! 2 \<in> set (rows scenario_table)"
    by (simp add: scenario_table_def)
  note th = stage_exclusivity [OF h1]
  from th have "\<forall>r \<in> set (rows scenario_table). cget r stage \<in> {Num 1, Num 2, Num 3}"
    by (rule conjunct1 [OF conjunct2])
  from this r have s: "cget (rows scenario_table ! 2) stage \<in> {Num 1, Num 2, Num 3}" by (rule bspec)
  from th have "(\<forall>q \<in> set (query scenario_engine). np_str q = q) \<longrightarrow>
            (\<forall>q \<in> set (query scenario_engine).
               \<exists>r \<in> set (rows scenario_table). cget r original_value = Str q)"
    by (rule conjunct2 [OF conjunct2])
  from this plain have "\<forall>q \<in> set (query scenario_engine).
               \<exists>r \<in> set (rows scenario_table). cget r original_value = Str q"
    by (rule mp)
  from this q have "\<exists>r \<in> set (rows scenario_table). cget r original_value = Str ''XYZ''"
    by (rule bspec)
  with h1 np s show ?thesis by (intro conjI)
qed

subsection \<open>Degradation when the stage-2 table has no score\<close>

lemma digit_val_digit_char: "d < 10 \<Longrightarrow> digit_val (digit_char d) = d"
  by (simp add: digit_val_def digit_char_def)

lemma str_val_snoc: "str_val (s @ [c]) = 10 * str_val s + digit_val c"
  by (simp add: str_val_def)

lemma str_val_str_nat: "str_val (str_nat n) = n"
proof (induction n rule: str_nat.induct)
  case (1 n)
  show ?case
  proof (cases "n < 10")
    case True
    then have "str_nat n = [digit_char n]" by (subst str_nat.simps) simp
    with True show ?thesis by (simp add: str_val_def digit_val_digit_char)
  next
    case False
    then have "str_nat n = str_nat (n div 10) @ [digit_char (n mod 10)]"
      by (subst str_nat.simps) simp
    with False "1.IH" show ?thesis
      by (simp add: str_val_snoc digit_val_digit_char)
  qed
qed

lemma str_int_inj:
  assumes "0 \<le> i" "0 \<le> j" "str_int i = str_int j"
  shows "i = j"
proof -
  from assms have "str_val (str_nat (nat i)) = str_val (str_nat (nat j))"
    by (simp add: str_int_def)
  then have "nat i = nat j" by (simp only: str_val_str_nat)
  with assms(1,2) show ?thesis by simp
qed

lemma top_cols_inj:
  assumes "0 \<le> i" "0 \<le> j"
  shows "top_match i = top_match j \<longleftrightarrow> i = j" and "top_score i = top_score j \<longleftrightarrow> i = j"
  using str_int_inj [OF assms] by (auto simp: top_match_def top_score_def)

lemma distinct_top_cols:
  assumes "distinct js" "\<forall>j \<in> set js. 0 \<le> j"
  shows "distinct (concat (map (\<lambda>i. [top_match i, top_score i]) js))"
  using assms
proof (induction js)
  case Nil
  then show ?case by simp
next
  case (Cons j js)
  have "top_match j \<noteq> top_match i" "top_score j \<noteq> top_score i" if "i \<in> set js" for i
    using that Cons.prems top_cols_inj [of j i] by auto
  with Cons show ?case by (auto simp: top_score_neq_match)
qed

lemma distinct_cols_exact_df: "distinct (cols (exact_df e))"
proof -
  have "distinct (concat (map (\<lambda>i. [top_match i, top_score i]) [1..topk e]))"
    by (rule distinct_top_cols) auto
  then show ?thesis by (auto simp: exact_df_def top_neq_fixed)
qed

lemma count_list_distinct: "distinct xs \<Longrightarrow> x \<in> set xs \<Longrightarrow> count_list xs x = 1"
  by (induction xs) (auto simp: count_list_0_iff)

lemma stage_res_unfold:
  assumes "stage_res w e s n qs = Inr t"
    "map_shortname_to_fullname (abbr_file w) qs = Inr mp"
    "get_match_results w e s mp qs = Inr res"
  shows "t = tag_stage (cura_map e) n
           \<lparr>cols = [original_value, updated_value]
                   @ filter (\<lambda>c. c \<noteq> updated_value) (cols (rename_key res)),
            rows = concat (map (merge_rows (rename_key res)) (replace_df mp qs))\<rparr>"
    and "updated_value \<in> set (cols (rename_key res))"
    and "count_list (cols (rename_key res)) updated_value = 1"
  using assms
  by (auto simp: stage_res_def merge_left_def split: sum.splits if_splits)

lemma stage_res_built:
  assumes "map_shortname_to_fullname (abbr_file w) qs = Inr mp"
    "get_match_results w e s mp qs = Inr res"
    "updated_value \<in> set (cols (rename_key res))"
    "count_list (cols (rename_key res)) updated_value = 1"
    "\<not> numeric_keys (rename_key res)"
  shows "stage_res w e s n qs = Inr (tag_stage (cura_map e) n
           \<lparr>cols = [original_value, updated_value]
                   @ filter (\<lambda>c. c \<noteq> updated_value) (cols (rename_key res)),
            rows = concat (map (merge_rows (rename_key res)) (replace_df mp qs))\<rparr>)"
  using assms by (simp add: stage_res_def merge_left_def)

lemma cols_rename_key:
  "set (cols (rename_key res)) =
     (if original_value \<in> set (cols res)
      then insert updated_value (set (cols res) - {original_value}) else set (cols res))"
  by (auto simp: rename_key_def)

lemma distinct_cols_rename_key:
  assumes "distinct (cols res)" "original_value \<in> set (cols res)" "updated_value \<notin> set (cols res)"
  shows "distinct (cols (rename_key res))"
  using assms by (auto simp: rename_key_def distinct_map inj_on_def)

lemma numeric_keys_iff:
  "numeric_keys (rename_key res) \<longleftrightarrow>
     result_keys res \<noteq> [] \<and> (\<forall>k \<in> set (result_keys res). \<forall>s. k \<noteq> Str s)"
  by (auto simp: numeric_keys_def result_keys_def split: cell.splits)

lemma distinct_cols_tag_stage: "distinct (cols t) \<Longrightarrow> distinct (cols (tag_stage cm n t))"
  by (simp add: tag_stage_def set_col_def)

lemma stage_res_top1_score:
  assumes "stage_res w e s n qs = Inr t"
    "map_shortname_to_fullname (abbr_file w) qs = Inr mp"
    "get_match_results w e s mp qs = Inr res"
  shows "top1_score \<in> set (cols t) \<longleftrightarrow> top1_score \<in> set (cols res)"
  unfolding stage_res_unfold(1) [OF assms]
  by (auto simp: cols_tag_stage cols_rename_key split: if_splits)

lemma get_match_results_other_backends:
  assumes "s = ''lm'' \<or> s = ''st''"
  shows "get_match_results (w\<lparr>rag_backend := b, bie_backend := b'\<rparr>) e s mp qs
           = get_match_results w e s mp qs"
  using assms by (auto simp: get_match_results_def om_model_from_strategy_def)

lemma stage_res_other_backends:
  assumes "s = ''lm'' \<or> s = ''st''"
  shows "stage_res (w\<lparr>rag_backend := b, bie_backend := b'\<rparr>) e s n qs = stage_res w e s n qs"
  by (simp add: stage_res_def get_match_results_other_backends [OF assms]
        cong: sum.case_cong split: sum.splits)

lemma scenario_non_exact: "non_exact_matches_ls scenario_engine = [''XYZ'']"
  by code_simp

text \<open>
  C5 (degradation on a missing score), as the claim states it, fails: a stage-2 backend
  table that lacks \<open>top1_score\<close> may lack the key column \<open>original_value\<close> too, and then
  the join raises \<open>KeyError\<close> before the check for \<open>top1_score\<close> is reached.
\<close>

theorem missing_score_counterexample:
  "s3_strategy scenario_engine = Some ''rag''
   \<and> get_match_results keyless_env scenario_engine (s2_strategy scenario_engine)
         (replaced Map.empty [''XYZ'']) (non_exact_matches_ls scenario_engine)
       = Inr \<lparr>cols = [''top1_match''], rows = [[(''top1_match'', Str ''Neoplasm'')]]\<rparr>
   \<and> top1_score \<notin> set [''top1_match'']
   \<and> run keyless_env scenario_engine = Inl KeyError"
proof -
  have "s3_strategy scenario_engine = Some ''rag''" "s2_strategy scenario_engine = ''lm''"
    "topk scenario_engine = 1"
    by (simp_all add: scenario_engine_def)
  moreover have "updated_queries (replaced Map.empty [''XYZ'']) [''XYZ''] = [''XYZ'']"
    by code_simp
  moreover have "run keyless_env scenario_engine = Inl KeyError" by code_simp
  ultimately show ?thesis
    by (simp add: scenario_non_exact get_match_results_def om_model_from_strategy_def
          keyless_env_def degraded_env_def keyless_def)
qed

text \<open>
  C5, amended. With a stage-3 strategy configured, when the abbreviation table loads or
  is not found and the stage-2 backend returns a table that can be joined (its column
  labels are unique, it has the key column \<open>original_value\<close> and no \<open>updated_value\<close>
  column, and its keys are not all numbers or missing) but that has no \<open>top1_score\<close>
  column, \<open>run\<close> returns a table, whatever the stage-3 backends are (they are not
  invoked: \<open>run\<close> returns it even when they would raise), and that table is the
  concatenation of the stage-1 table and the stage-2 table.
\<close>

theorem missing_score_degrades:
  assumes "s3_strategy e = Some s3"
    and "s2_strategy e = ''lm'' \<or> s2_strategy e = ''st''"
    and "non_exact_matches_ls e \<noteq> []"
    and "map_shortname_to_fullname (abbr_file w) (non_exact_matches_ls e) = Inr mp"
    and "get_match_results w e (s2_strategy e) mp (non_exact_matches_ls e) = Inr res"
    and "distinct (cols res)" "original_value \<in> set (cols res)" "updated_value \<notin> set (cols res)"
    and "result_keys res = [] \<or> (\<exists>s. Str s \<in> set (result_keys res))"
    and "top1_score \<notin> set (cols res)"
  shows "\<exists>s2. stage_res w e (s2_strategy e) 2 (non_exact_matches_ls e) = Inr s2
            \<and> (\<forall>b b'. run (w\<lparr>rag_backend := b, bie_backend := b'\<rparr>) e
                   = Inr (concat_tables [exact_df e, s2]))
            \<and> rows (concat_tables [exact_df e, s2]) = rows (exact_df e) @ rows s2"
proof -
  let ?R = "rename_key res"
  let ?m = "\<lparr>cols = [original_value, updated_value] @ filter (\<lambda>c. c \<noteq> updated_value) (cols ?R),
      rows = concat (map (merge_rows ?R) (replace_df mp (non_exact_matches_ls e)))\<rparr>"
  have key: "updated_value \<in> set (cols ?R)"
    using assms(7) by (simp add: cols_rename_key)
  have dist: "distinct (cols ?R)"
    using assms(6-8) by (rule distinct_cols_rename_key)
  from dist key have cnt: "count_list (cols ?R) updated_value = 1" by (rule count_list_distinct)
  have num: "\<not> numeric_keys ?R"
    using assms(9) unfolding numeric_keys_iff by blast
  define s2 where "s2 = tag_stage (cura_map e) 2 ?m"
  have s2: "stage_res w e (s2_strategy e) 2 (non_exact_matches_ls e) = Inr s2"
    unfolding s2_def by (rule stage_res_built [OF assms(4,5) key cnt num])
  have "distinct (cols ?m)"
    using dist original_not_in_rename_key [of res] by simp
  then have d2: "distinct (cols s2)" unfolding s2_def by (rule distinct_cols_tag_stage)
  have no_score: "top1_score \<notin> set (cols s2)"
    using stage_res_top1_score [OF s2 assms(4,5)] assms(10) by simp
  have "run (w\<lparr>rag_backend := b, bie_backend := b'\<rparr>) e = Inr (concat_tables [exact_df e, s2])"
    for b b'
    using assms(1,3) s2 no_score d2 distinct_cols_exact_df [of e]
      stage_res_other_backends [OF assms(2)]
    by (simp add: run_def pd_concat_def)
  with s2 show ?thesis by (auto simp: rows_concat_tables)
qed

theorem missing_score_degrades_witness:
  "s3_strategy scenario_engine = Some ''rag''
   \<and> (s2_strategy scenario_engine = ''lm'' \<or> s2_strategy scenario_engine = ''st'')
   \<and> non_exact_matches_ls scenario_engine \<noteq> []
   \<and> map_shortname_to_fullname (abbr_file degraded_env) (non_exact_matches_ls scenario_engine)
       = Inr (replaced Map.empty [''XYZ''])
   \<and> get_match_results degraded_env scenario_engine (s2_strategy scenario_engine)
         (replaced Map.empty [''XYZ'']) (non_exact_matches_ls scenario_engine)
       = unscored [''XYZ''] (corpus scenario_engine) 1 []
   \<and> top1_score \<notin> set [original_value, ''top1_match'']
   \<and> (\<exists>s2. stage_res degraded_env scenario_engine ''lm'' 2 [''XYZ''] = Inr s2
          \<and> run degraded_env scenario_engine = Inr (concat_tables [exact_df scenario_engine, s2]))"
proof -
  let ?res = "\<lparr>cols = [original_value, ''top1_match''],
          rows = [[(original_value, Str ''XYZ''), (''top1_match'', Str ''Neoplasm'')]]\<rparr>"
  have s2s: "s2_strategy scenario_engine = ''lm''" by (simp add: scenario_engine_def)
  have h1: "s3_strategy scenario_engine = Some ''rag''" by (simp add: scenario_engine_def)
  have h2: "s2_strategy scenario_engine = ''lm'' \<or> s2_strategy scenario_engine = ''st''"
    by (simp add: s2s)
  have h3: "non_exact_matches_ls scenario_engine \<noteq> []" by (simp add: scenario_non_exact)
  have h4: "map_shortname_to_fullname (abbr_file degraded_env) (non_exact_matches_ls scenario_engine)
       = Inr (replaced Map.empty [''XYZ''])"
    by (simp add: scenario_non_exact degraded_env_def map_shortname_to_fullname_def)
  have u: "updated_queries (replaced Map.empty [''XYZ'']) [''XYZ''] = [''XYZ'']"
    by code_simp
  have c: "updated_cura_map (replaced Map.empty [''XYZ'']) (cura_map scenario_engine) = []"
    by code_simp
  have k: "topk scenario_engine = 1" by (simp add: scenario_engine_def)
  have h5: "get_match_results degraded_env scenario_engine (s2_strategy scenario_engine)
         (replaced Map.empty [''XYZ'']) (non_exact_matches_ls scenario_engine)
       = unscored [''XYZ''] (corpus scenario_engine) 1 []"
    by (simp add: scenario_non_exact s2s get_match_results_def om_model_from_strategy_def
          degraded_env_def u c k)
  have r: "unscored [''XYZ''] (corpus scenario_engine) 1 [] = Inr ?res"
    by (simp add: unscored_def)
  have h6: "distinct (cols ?res)" "original_value \<in> set (cols ?res)"
    "updated_value \<notin> set (cols ?res)"
    by simp_all
  have h7: "result_keys ?res = [] \<or> (\<exists>s. Str s \<in> set (result_keys ?res))"
    by (simp add: result_keys_def rename_key_def cget_def)
  have h8: "top1_score \<notin> set (cols ?res)" by simp
  have same: "degraded_env\<lparr>rag_backend := failing, bie_backend := failing\<rparr> = degraded_env"
    by (simp add: degraded_env_def)
  from missing_score_degrades [OF h1 h2 h3 h4 h5 [unfolded r] h6 h7 h8]
  obtain s2 where "stage_res degraded_env scenario_engine (s2_strategy scenario_engine) 2
        (non_exact_matches_ls scenario_engine) = Inr s2"
    and "\<forall>b b'. run (degraded_env\<lparr>rag_backend := b, bie_backend := b'\<rparr>) scenario_engine
                   = Inr (concat_tables [exact_df scenario_engine, s2])"
    by blast
  then have "stage_res degraded_env scenario_engine ''lm'' 2 [''XYZ''] = Inr s2
          \<and> run degraded_env scenario_engine = Inr (concat_tables [exact_df scenario_engine, s2])"
    using same by (metis s2s scenario_non_exact)
  with h1 h2 h3 h4 h5 show ?thesis by auto
qed

subsection \<open>The left join keeps every submitted query\<close>

lemma cget_rename_key_updated:
  "r \<in> set (rows (rename_key res)) \<Longrightarrow> cget r updated_value \<in> set (result_keys res)"
  by (simp add: result_keys_def)

lemma matching_dropped:
  assumes "cget l updated_value \<notin> set (result_keys res)"
  shows "matching (rename_key res) l = []"
proof -
  have "cget r updated_value \<noteq> cget l updated_value" if "r \<in> set (rows (rename_key res))" for r
    using cget_rename_key_updated [OF that] assms by metis
  then show ?thesis by (simp add: matching_def filter_empty_conv)
qed

text \<open>
  C7 (left-join preservation). In the table of a matcher stage (stage 2 and stage 3 are
  both \<open>stage_res\<close>), every query submitted to the stage has a row keyed by its
  \<open>original_value\<close>; when the backend's table has no row for the expanded query, each row
  of the query carries the expanded query and the missing value in every column other
  than the four that the engine writes.
\<close>

theorem left_join_preserves:
  assumes "stage_res w e s n qs = Inr t" and "q \<in> set qs"
    and "map_shortname_to_fullname (abbr_file w) qs = Inr mp"
    and "get_match_results w e s mp qs = Inr res"
  shows "(\<exists>r \<in> set (rows t). cget r original_value = Str q)
       \<and> (Str (the (mp q)) \<notin> set (result_keys res) \<longrightarrow>
            (\<forall>r \<in> set (rows t). cget r original_value = Str q \<longrightarrow>
               cget r updated_value = Str (the (mp q))
               \<and> (\<forall>c. c \<notin> {original_value, updated_value, curated_ontology, stage}
                      \<longrightarrow> cget r c = Null)))"
proof -
  note t = stage_res_unfold(1) [OF assms(1,3,4)]
  have first: "\<exists>r \<in> set (rows t). cget r original_value = Str q"
    using assms(1,2) by (rule stage_rows_cover)
  have second: "cget r updated_value = Str (the (mp q))
               \<and> (\<forall>c. c \<notin> {original_value, updated_value, curated_ontology, stage}
                      \<longrightarrow> cget r c = Null)"
    if dropped: "Str (the (mp q)) \<notin> set (result_keys res)"
      and r: "r \<in> set (rows t)" and rq: "cget r original_value = Str q" for r
  proof -
    from r obtain l r0 where l: "l \<in> set (replace_df mp qs)"
      and r0: "r0 \<in> set (merge_rows (rename_key res) l)"
      and rr: "r = AList.update stage (Num (of_int n))
           (AList.update curated_ontology
              (curated_or_not_found (cura_map e) (cget r0 original_value)) r0)"
      unfolding t rows_tag_stage by auto
    have "cget r0 original_value = cget l original_value"
      using r0 by (rule merge_rows_original [OF original_not_in_rename_key])
    with rq rr have lq: "cget l original_value = Str q" by (simp add: cget_update)
    from l obtain q' where "l = [(original_value, Str q'), (updated_value, Str (the (mp q')))]"
      by (auto simp: replace_df_def)
    with lq have l_eq: "l = [(original_value, Str q), (updated_value, Str (the (mp q)))]"
      by (simp add: cget_def)
    then have "cget l updated_value = Str (the (mp q))" by (simp add: cget_def)
    with dropped have "matching (rename_key res) l = []" by (simp add: matching_dropped)
    with r0 have "r0 = l" by (simp add: merge_rows_unmatched)
    with rr l_eq show ?thesis by (simp add: cget_update) (simp add: cget_def)
  qed
  from first second show ?thesis by blast
qed

theorem left_join_preserves_witness:
  "stage_res dropping_env scenario_engine ''lm'' 2 [''XYZ''] = Inr dropped_table
   \<and> ''XYZ'' \<in> set [''XYZ'']
   \<and> map_shortname_to_fullname (abbr_file dropping_env) [''XYZ'']
       = Inr (replaced Map.empty [''XYZ''])
   \<and> get_match_results dropping_env scenario_engine ''lm'' (replaced Map.empty [''XYZ'']) [''XYZ'']
       = Inr \<lparr>cols = [original_value, ''top1_match'', top1_score], rows = []\<rparr>
   \<and> (\<exists>r \<in> set (rows dropped_table). cget r original_value = Str ''XYZ'')
   \<and> cget (hd (rows dropped_table)) top1_score = Null"
proof -
  let ?res = "\<lparr>cols = [original_value, ''top1_match'', top1_score], rows = []\<rparr> :: cell table"
  have h1: "stage_res dropping_env scenario_engine ''lm'' 2 [''XYZ''] = Inr dropped_table"
    by code_simp
  have h2: "''XYZ'' \<in> set [''XYZ'']" by simp
  have h3: "map_shortname_to_fullname (abbr_file dropping_env) [''XYZ'']
       = Inr (replaced Map.empty [''XYZ''])"
    by (simp add: dropping_env_def map_shortname_to_fullname_def)
  have h4: "get_match_results dropping_env scenario_engine ''lm'' (replaced Map.empty [''XYZ'']) [''XYZ'']
       = Inr ?res"
    by (simp add: get_match_results_def om_model_from_strategy_def dropping_env_def dropping_def)
  note th = left_join_preserves [OF h1 h2 h3 h4]
  have d: "Str (the (replaced Map.empty [''XYZ''] ''XYZ'')) \<notin> set (result_keys ?res)"
    by (simp add: result_keys_def rename_key_def)
  have r: "hd (rows dropped_table) \<in> set (rows dropped_table)"
    "cget (hd (rows dropped_table)) original_value = Str ''XYZ''"
    by (simp_all add: dropped_table_def cget_def)
  have c: "top1_score \<notin> {original_value, updated_value, curated_ontology, stage}" by simp
  from th have "Str (the (replaced Map.empty [''XYZ''] ''XYZ'')) \<notin> set (result_keys ?res) \<longrightarrow>
            (\<forall>r \<in> set (rows dropped_table). cget r original_value = Str ''XYZ'' \<longrightarrow>
               cget r updated_value = Str (the (replaced Map.empty [''XYZ''] ''XYZ''))
               \<and> (\<forall>c. c \<notin> {original_value, updated_value, curated_ontology, stage}
                      \<longrightarrow> cget r c = Null))"
    by (rule conjunct2)
  from this [rule_format, OF d r(1) r(2)]
  have "\<forall>c. c \<notin> {original_value, updated_value, curated_ontology, stage}
          \<longrightarrow> cget (hd (rows dropped_table)) c = Null"
    by (rule conjunct2)
  from this [rule_format, OF c] have n: "cget (hd (rows dropped_table)) top1_score = Null" .
  from th have "\<exists>r \<in> set (rows dropped_table). cget r original_value = Str ''XYZ''"
    by (rule conjunct1)
  with n h1 h2 h3 h4 show ?thesis by (intro conjI)
qed

subsection \<open>Escalation to stage 3\<close>

lemma split_stage2: "stage_res split_env scenario_engine ''lm'' 2 [''XYZ''] = Inr split_s2"
  by code_simp

lemma split_run: "run split_env scenario_engine = Inr scenario_table"
  by code_simp

text \<open>
  C2 (escalation correctness), as the claim states it, fails: when the stage-2 table
  holds two rows of the query \<open>XYZ\<close>, one scored 0.95 and one scored 0.4, with the
  threshold 0.9, the row scored 0.95 is not retained in the returned table.
\<close>

theorem escalation_counterexample:
  "s3_strategy scenario_engine = Some ''rag''
   \<and> stage_res split_env scenario_engine (s2_strategy scenario_engine) 2
         (non_exact_matches_ls scenario_engine) = Inr split_s2
   \<and> top1_score \<in> set (cols split_s2)
   \<and> high_row \<in> set (rows split_s2)
   \<and> s3_threshold scenario_engine
        \<le> to_numeric (parse_numeric split_env) (cget high_row top1_score)
   \<and> run split_env scenario_engine = Inr scenario_table
   \<and> high_row \<notin> set (rows scenario_table)"
proof -
  have "s2_strategy scenario_engine = ''lm''" "s3_strategy scenario_engine = Some ''rag''"
    "s3_threshold scenario_engine = 9 / 10"
    by (simp_all add: scenario_engine_def)
  moreover have "non_exact_matches_ls scenario_engine = [''XYZ'']" by (rule scenario_non_exact)
  moreover have "cget high_row top1_score = Num (19 / 20)"
    by (simp add: high_row_def cget_def)
  moreover have "high_row \<in> set (rows split_s2)" "top1_score \<in> set (cols split_s2)"
    by (simp_all add: high_row_def split_s2_def)
  moreover have "high_row \<notin> set (rows scenario_table)"
    by (simp add: high_row_def scenario_table_def)
  ultimately show ?thesis
    using split_stage2 split_run by (simp add: to_numeric_def)
qed

lemma no_low_rows:
  "queries_for_s3 w e s2 = [] \<Longrightarrow> r \<in> set (rows s2) \<Longrightarrow> \<not> low_confidence w e r"
  by (auto simp: queries_for_s3_def filter_empty_conv)

text \<open>
  C2, amended. With a stage-3 strategy configured and a \<open>top1_score\<close> column in the
  stage-2 table, a stage-2 row is retained unchanged in the returned table exactly when
  no stage-2 row of its query has a coerced score below the threshold; otherwise it is
  absent and the table holds a stage-3 row of the same query. In particular a row whose
  own coerced score is below the threshold is absent and replaced.
\<close>

theorem escalation:
  assumes "run w e = Inr t" and "s3_strategy e = Some s3"
    and "non_exact_matches_ls e \<noteq> []"
    and "stage_res w e (s2_strategy e) 2 (non_exact_matches_ls e) = Inr s2"
    and "top1_score \<in> set (cols s2)" and "r \<in> set (rows s2)"
  shows "(r \<in> set (rows t) \<longleftrightarrow>
            (\<forall>r' \<in> set (rows s2). cget r' original_value = cget r original_value
                \<longrightarrow> \<not> low_confidence w e r'))
       \<and> (r \<notin> set (rows t) \<longrightarrow>
            (\<exists>r3 \<in> set (rows t). cget r3 stage = Num 3
                \<and> cget r3 original_value = cget r original_value))
       \<and> (low_confidence w e r \<longrightarrow> r \<notin> set (rows t))"
proof -
  let ?keep = "\<forall>r' \<in> set (rows s2). cget r' original_value = cget r original_value
                \<longrightarrow> \<not> low_confidence w e r'"
  have st: "cget r stage = Num 2"
    using stage_rows_stage [OF assms(4,6)] by simp
  have esc: "cget r original_value \<in> set (queries_for_s3 w e s2) \<longleftrightarrow> \<not> ?keep"
    by (auto simp: queries_for_s3_iff)
  have not_exact: "r \<notin> set (rows (exact_df e))"
  proof
    assume "r \<in> set (rows (exact_df e))"
    then have "cget r stage = Num 1" by (auto simp: rows_exact_df exact_row_fixed)
    with st show False by simp
  qed
  from assms(1) have main: "(r \<in> set (rows t) \<longleftrightarrow> ?keep)
       \<and> (r \<notin> set (rows t) \<longrightarrow>
            (\<exists>r3 \<in> set (rows t). cget r3 stage = Num 3
                \<and> cget r3 original_value = cget r original_value))"
  proof (cases rule: run_InrE)
    case stage1
    with assms(3) show ?thesis by simp
  next
    case (stage2 s2')
    from stage2(2) assms(4) have eq: "s2' = s2" by simp
    from stage2(3) assms(2,5) have none: "queries_for_s3 w e s2 = []" by (simp add: eq)
    have "r \<in> set (rows t)" using assms(6) by (simp add: stage2(4) eq rows_concat_tables)
    moreover have ?keep
    proof (intro ballI impI)
      fix r' assume "r' \<in> set (rows s2)"
      with none show "\<not> low_confidence w e r'" by (rule no_low_rows)
    qed
    ultimately show ?thesis by (simp only: simp_thms)
  next
    case (stage3 s2' s3' s3_res)
    from stage3(2) assms(4) have eq: "s2' = s2" by simp
    note s3r = stage3(6) [unfolded eq]
    have not_s3: "r \<notin> set (rows s3_res)"
    proof
      assume "r \<in> set (rows s3_res)"
      from stage_rows_stage [OF s3r this] st show False by simp
    qed
    have mem: "r \<in> set (rows t) \<longleftrightarrow> cget r original_value \<notin> set (queries_for_s3 w e s2)"
      using assms(6) not_exact not_s3
      by (simp add: stage3(7) eq rows_concat_tables rows_s2_res_filtered)
    have repl: "\<exists>r3 \<in> set (rows t). cget r3 stage = Num 3
                \<and> cget r3 original_value = cget r original_value"
      if out: "r \<notin> set (rows t)"
    proof -
      from out mem have q3: "cget r original_value \<in> set (queries_for_s3 w e s2)" by simp
      from stage_rows_original [OF assms(4,6)] obtain q where q: "cget r original_value = Str q"
        by blast
      from q3 have "Str q \<in> set (queries_for_s3 w e s2)" by (simp add: q)
      then have "q \<in> set (map str_of (queries_for_s3 w e s2))"
        by (simp only: str_of_queries_for_s3 [OF assms(4)])
      from stage_rows_cover [OF s3r this] obtain r3 where
        r3: "r3 \<in> set (rows s3_res)" "cget r3 original_value = Str q" by blast
      from stage_rows_stage [OF s3r r3(1)] have "cget r3 stage = Num 3" by simp
      moreover from r3(1) have "r3 \<in> set (rows t)"
        by (simp add: stage3(7) rows_concat_tables)
      ultimately show ?thesis using r3(2) q by auto
    qed
    from mem esc have "r \<in> set (rows t) \<longleftrightarrow> ?keep" by (simp only: not_not)
    with repl show ?thesis by (intro conjI impI)
  qed
  have low: "r \<notin> set (rows t)" if l: "low_confidence w e r"
  proof
    assume "r \<in> set (rows t)"
    with main have keep: ?keep by (simp only: simp_thms)
    from keep [rule_format, OF assms(6) refl] l show False by (rule notE)
  qed
  from main low show ?thesis by (intro conjI impI) (simp_all only: simp_thms)
qed

theorem escalation_witness:
  "run split_env scenario_engine = Inr scenario_table
   \<and> s3_strategy scenario_engine = Some ''rag''
   \<and> non_exact_matches_ls scenario_engine \<noteq> []
   \<and> stage_res split_env scenario_engine (s2_strategy scenario_engine) 2
         (non_exact_matches_ls scenario_engine) = Inr split_s2
   \<and> top1_score \<in> set (cols split_s2)
   \<and> high_row \<in> set (rows split_s2)
   \<and> (\<exists>r3 \<in> set (rows scenario_table). cget r3 stage = Num 3
          \<and> cget r3 original_value = cget high_row original_value)"
proof -
  have e: "s2_strategy scenario_engine = ''lm''" "s3_strategy scenario_engine = Some ''rag''"
    by (simp_all add: scenario_engine_def)
  have h3: "non_exact_matches_ls scenario_engine \<noteq> []" by (simp add: scenario_non_exact)
  have h4: "stage_res split_env scenario_engine (s2_strategy scenario_engine) 2
         (non_exact_matches_ls scenario_engine) = Inr split_s2"
    by (simp add: e scenario_non_exact split_stage2)
  have h5: "top1_score \<in> set (cols split_s2)" by (simp add: split_s2_def)
  have h6: "high_row \<in> set (rows split_s2)" by (simp add: split_s2_def high_row_def)
  have out: "high_row \<notin> set (rows scenario_table)"
    by (simp add: high_row_def scenario_table_def)
  note th = escalation [OF split_run e(2) h3 h4 h5 h6]
  from th have "high_row \<notin> set (rows scenario_table) \<longrightarrow>
            (\<exists>r3 \<in> set (rows scenario_table). cget r3 stage = Num 3
                \<and> cget r3 original_value = cget high_row original_value)"
    by (rule conjunct1 [OF conjunct2])
  from this [rule_format, OF out] split_run e(2) h3 h4 h5 h6 show ?thesis by (intro conjI)
qed

subsection \<open>Coverage of the input queries\<close>

lemma dup_run: "run scenario_env dup_engine = Inr dup_table"
  by code_simp

text \<open>
  C1 (coverage). The code does not keep the claim: for the input queries
  \<open>Lung Cancer, Lung Cancer, XYZ, XYZ\<close> the returned table holds two rows of the exact
  match \<open>Lung Cancer\<close>, as stage 1 keeps every occurrence, but one row of the unknown
  query \<open>XYZ\<close>, as the set difference that selects the queries of stage 2 keeps each
  distinct string once: the \<open>original_value\<close> entries are not the multiset of the input.
\<close>

theorem duplicate_query_collapsed:
  "query dup_engine = [''Lung Cancer'', ''Lung Cancer'', ''XYZ'', ''XYZ'']
   \<and> run scenario_env dup_engine = Inr dup_table
   \<and> map (\<lambda>r. cget r original_value) (rows dup_table)
       = [Str ''Lung Cancer'', Str ''Lung Cancer'', Str ''XYZ'']
   \<and> mset (map (\<lambda>r. cget r original_value) (rows dup_table))
       \<noteq> mset (map Str (query dup_engine))"
proof -
  have o: "map (\<lambda>r. cget r original_value) (rows dup_table)
       = [Str ''Lung Cancer'', Str ''Lung Cancer'', Str ''XYZ'']"
    by (simp add: dup_table_def cget_def)
  have q: "query dup_engine = [''Lung Cancer'', ''Lung Cancer'', ''XYZ'', ''XYZ'']"
    by (simp add: dup_engine_def)
  have "size (mset (map (\<lambda>r. cget r original_value) (rows dup_table)))
          \<noteq> size (mset (map Str (query dup_engine)))"
    by (simp add: o q)
  then have "mset (map (\<lambda>r. cget r original_value) (rows dup_table))
       \<noteq> mset (map Str (query dup_engine))"
    by (rule contrapos_nn) simp
  with o q dup_run show ?thesis by (intro conjI)
qed

subsection \<open>The queries handed to stage 2\<close>




















subsection \<open>The corpus normalizer applied twice\<close>

text \<open>
  C8 (idempotence of normalization). The code does not keep the claim: for a reference
  table whose \<open>official_label\<close> column holds the integer 1 and the string \<open>1\<close>, the
  normalizer returns two rows that both carry the label \<open>1\<close> (it drops duplicates
  before it coerces the labels to strings), and applied to that output it returns one
  row.
\<close>

theorem normalize_twice_differs:
  "normalize_df mixed_labels False = Inr normalized_once
   \<and> normalize_df normalized_once False = Inr normalized_twice
   \<and> length (rows normalized_once) = 2
   \<and> length (rows normalized_twice) = 1
   \<and> map (\<lambda>r. rget r ''official_label'') (rows normalized_once) = [RStr ''1'', RStr ''1'']"
proof -
  have "normalize_df mixed_labels False = Inr normalized_once" by code_simp
  moreover have "normalize_df normalized_once False = Inr normalized_twice" by code_simp
  ultimately show ?thesis
    by (simp add: normalized_once_def normalized_twice_def rget_def)
qed

subsection \<open>The abbreviation resolver\<close>

text \<open>
  C6 (abbreviation resolver contract), as the claim states it, fails: with no table
  file, the query \<open> XYZ\<close> is mapped to \<open>XYZ\<close>, not to itself; and a failure of the load
  other than a missing file is raised, not turned into a mapping.
\<close>

theorem resolver_counterexample:
  "(\<exists>m. map_shortname_to_fullname FileNotFound ['' XYZ''] = Inr m
        \<and> m '' XYZ'' = Some ''XYZ'' \<and> m '' XYZ'' \<noteq> Some '' XYZ'')
   \<and> map_shortname_to_fullname LoadFailure ['' XYZ''] = Inl LoadError"
proof -
  have "py_strip '' XYZ'' = ''XYZ''" by code_simp
  then have "replaced Map.empty ['' XYZ''] '' XYZ'' = Some ''XYZ''"
    by (simp add: replaced_apply full_name_def)
  then show ?thesis by (simp add: map_shortname_to_fullname_def)
qed

text \<open>
  C6, amended. When the table loads or its file is not found, the resolver returns a
  mapping whose domain is exactly the given strings; a string whose trimmed form has an
  entry in the table (codes and names trimmed, the last line of a code winning) maps to
  that name; a string that carries no surrounding whitespace and has no entry maps to
  itself, so that with no table file every such string maps to itself. Any other
  failure of the load is raised.
\<close>

lemma replaced_hit:
  "q \<in> set qs \<Longrightarrow> tbl (py_strip q) = Some n \<Longrightarrow> replaced tbl qs q = Some n"
  by (simp add: replaced_apply full_name_def)

lemma replaced_miss:
  "q \<in> set qs \<Longrightarrow> tbl (py_strip q) = None \<Longrightarrow> py_strip q = q \<Longrightarrow> replaced tbl qs q = Some q"
  by (simp add: replaced_apply full_name_def)

theorem resolver_contract:
  "(\<exists>m. map_shortname_to_fullname (Loaded ls) qs = Inr m \<and> dom m = set qs
        \<and> (\<forall>q \<in> set qs.
              (\<forall>n. short_to_name ls (py_strip q) = Some n \<longrightarrow> m q = Some n)
              \<and> (short_to_name ls (py_strip q) = None \<and> py_strip q = q \<longrightarrow> m q = Some q)))
   \<and> (\<exists>m. map_shortname_to_fullname FileNotFound qs = Inr m \<and> dom m = set qs
        \<and> (\<forall>q \<in> set qs. py_strip q = q \<longrightarrow> m q = Some q))
   \<and> map_shortname_to_fullname LoadFailure qs = Inl LoadError"
proof (intro conjI)
  let ?m = "replaced (short_to_name ls) qs"
  have "map_shortname_to_fullname (Loaded ls) qs = Inr ?m"
    by (simp add: map_shortname_to_fullname_def)
  moreover have "dom ?m = set qs" by (rule dom_replaced)
  moreover have "\<forall>q \<in> set qs.
              (\<forall>n. short_to_name ls (py_strip q) = Some n \<longrightarrow> ?m q = Some n)
              \<and> (short_to_name ls (py_strip q) = None \<and> py_strip q = q \<longrightarrow> ?m q = Some q)"
    using replaced_hit [of _ qs "short_to_name ls"] replaced_miss [of _ qs "short_to_name ls"]
    by blast
  ultimately show "\<exists>m. map_shortname_to_fullname (Loaded ls) qs = Inr m \<and> dom m = set qs
        \<and> (\<forall>q \<in> set qs.
              (\<forall>n. short_to_name ls (py_strip q) = Some n \<longrightarrow> m q = Some n)
              \<and> (short_to_name ls (py_strip q) = None \<and> py_strip q = q \<longrightarrow> m q = Some q))"
    by blast
next
  let ?m = "replaced Map.empty qs"
  have "map_shortname_to_fullname FileNotFound qs = Inr ?m"
    by (simp add: map_shortname_to_fullname_def)
  moreover have "dom ?m = set qs" by (rule dom_replaced)
  moreover have "\<forall>q \<in> set qs. py_strip q = q \<longrightarrow> ?m q = Some q"
    using replaced_miss [of _ qs Map.empty] by simp
  ultimately show "\<exists>m. map_shortname_to_fullname FileNotFound qs = Inr m \<and> dom m = set qs
        \<and> (\<forall>q \<in> set qs. py_strip q = q \<longrightarrow> m q = Some q)"
    by blast
next
  show "map_shortname_to_fullname LoadFailure qs = Inl LoadError"
    by (simp add: map_shortname_to_fullname_def)
qed

theorem resolver_contract_witness:
  "\<exists>m. map_shortname_to_fullname (Loaded [(''LUAD '', ''Lung Adenocarcinoma'')]) [''LUAD'', ''XYZ'']
         = Inr m
       \<and> dom m = set [''LUAD'', ''XYZ'']
       \<and> m ''LUAD'' = Some ''Lung Adenocarcinoma'' \<and> m ''XYZ'' = Some ''XYZ''"
proof -
  let ?ls = "[(''LUAD '', ''Lung Adenocarcinoma'')]"
  let ?qs = "[''LUAD'', ''XYZ'']"
  have s: "py_strip ''LUAD'' = ''LUAD''" "py_strip ''XYZ'' = ''XYZ''" by code_simp+
  have t: "short_to_name ?ls ''LUAD'' = Some ''Lung Adenocarcinoma''"
    "short_to_name ?ls ''XYZ'' = None"
    by code_simp+
  from resolver_contract [of ?ls ?qs] obtain m where
    m: "map_shortname_to_fullname (Loaded ?ls) ?qs = Inr m" "dom m = set ?qs"
    and all: "\<forall>q \<in> set ?qs.
              (\<forall>n. short_to_name ?ls (py_strip q) = Some n \<longrightarrow> m q = Some n)
              \<and> (short_to_name ?ls (py_strip q) = None \<and> py_strip q = q \<longrightarrow> m q = Some q)"
    by blast
  from all have "m ''LUAD'' = Some ''Lung Adenocarcinoma''" "m ''XYZ'' = Some ''XYZ''"
    by (simp_all add: s t)
  with m show ?thesis by blast
qed

end
